theory Spec2Isabelle
  imports Complex_Main "HOL-Library.AList" "HOL-Library.Multiset"
begin

section \<open>Python values and errors\<close>

text \<open>
  The module \<^verbatim>\<open>dd_widgets/timeseries/__init__.py\<close> works on Python integers, on
  strings and on NumPy arrays of \<^verbatim>\<open>float64\<close>. Python integers are \<^typ>\<open>int\<close>.
  A finite \<^verbatim>\<open>float64\<close> is read as the \<^typ>\<open>real\<close> it denotes. The quotients of the evaluator
  and the scaling of \<^verbatim>\<open>normalize_data\<close> are computed in exact arithmetic; \<^verbatim>\<open>normalize_error\<close>
  and \<^verbatim>\<open>compute_anomalies\<close> compute as \<^verbatim>\<open>float64\<close> does, every operation rounded, with
  overflow to \<^verbatim>\<open>inf\<close> and with \<^verbatim>\<open>nan\<close>.
  Every exception the modelled code can raise is a value of \<open>error\<close>, and a function that can
  raise returns \<open>error + 'a\<close> with \<open>Inl\<close> for the exception.
\<close>

datatype error =
    ZeroDivisionError
  | IndexError string
  | KeyError string
  | ValueError string

text \<open>
  \<^verbatim>\<open>a / b\<close> on two Python integers: \<^verbatim>\<open>ZeroDivisionError\<close> when \<^verbatim>\<open>b\<close> is zero, else the
  quotient as a float.
\<close>

definition py_truediv :: "int \<Rightarrow> int \<Rightarrow> error + real" where
  "py_truediv a b = (if b = 0 then Inl ZeroDivisionError else Inr (real_of_int a / real_of_int b))"

section \<open>The evaluator: \<^verbatim>\<open>get_anomaly_results\<close> and \<^verbatim>\<open>get_anomaly_score\<close>\<close>

text \<open>
  The inner loop of \<^verbatim>\<open>get_anomaly_results\<close>,
  \<^verbatim>\<open>for i in range(len(targ_anom)): start, end = targ_anom[i]; if start <= anom <= end: ...; break\<close>:
  the index of the first interval that contains \<^verbatim>\<open>anom\<close>, counted from \<open>i\<close>, or \<open>None\<close> when
  the loop ends without a match.
\<close>

fun first_match :: "(int \<times> int) list \<Rightarrow> int \<Rightarrow> nat \<Rightarrow> nat option" where
  "first_match [] anom i = None"
| "first_match ((start, end) # rest) anom i =
     (if start \<le> anom \<and> anom \<le> end then Some i else first_match rest anom (Suc i))"

text \<open>
  The outer loop \<^verbatim>\<open>for anom in pred_anom\<close>, on the state \<^verbatim>\<open>(found, fps)\<close>: a match sets
  \<^verbatim>\<open>found[i] = True\<close>, no match appends \<^verbatim>\<open>anom\<close> to \<^verbatim>\<open>fps\<close>.
\<close>

fun scan_predictions ::
  "(int \<times> int) list \<Rightarrow> int list \<Rightarrow> bool list \<times> int list \<Rightarrow> bool list \<times> int list" where
  "scan_predictions targ_anom [] st = st"
| "scan_predictions targ_anom (anom # rest) (found, fps) =
     (case first_match targ_anom anom 0 of
        Some i \<Rightarrow> scan_predictions targ_anom rest (found[i := True], fps)
      | None \<Rightarrow> scan_predictions targ_anom rest (found, fps @ [anom]))"

definition get_anomaly_results :: "int list \<Rightarrow> (int \<times> int) list \<Rightarrow> int \<times> int \<times> int" where
  "get_anomaly_results pred_anom targ_anom =
     (let (found, fps) =
            scan_predictions targ_anom pred_anom (replicate (length targ_anom) False, []);
          tp = int (length (filter (\<lambda>b. b) found));
          fn = int (length targ_anom) - tp
      in (tp, fn, int (length fps)))"

text \<open>
  \<^verbatim>\<open>return tp / (tp + fn), tp / (tp + fp)\<close>: the two quotients are evaluated from left to
  right and the first division by zero raises.
\<close>

definition get_anomaly_score :: "int list \<Rightarrow> (int \<times> int) list \<Rightarrow> error + (real \<times> real)" where
  "get_anomaly_score pred_anom targ_anom =
     (case get_anomaly_results pred_anom targ_anom of
        (tp, fn, fp) \<Rightarrow>
          (case py_truediv tp (tp + fn) of
             Inl e \<Rightarrow> Inl e
           | Inr r1 \<Rightarrow>
               (case py_truediv tp (tp + fp) of
                  Inl e \<Rightarrow> Inl e
                | Inr r2 \<Rightarrow> Inr (r1, r2))))"

text \<open>
  The counts as the specification words them: an interval is found when some predicted
  index lies within its inclusive bounds, and a predicted index is a false positive when
  no interval contains it.
\<close>

definition in_interval :: "int \<times> int \<Rightarrow> int \<Rightarrow> bool" where
  "in_interval iv anom = (fst iv \<le> anom \<and> anom \<le> snd iv)"

definition spec_true_positive :: "int list \<Rightarrow> (int \<times> int) list \<Rightarrow> int" where
  "spec_true_positive pred_anom targ_anom =
     int (length (filter (\<lambda>iv. list_ex (in_interval iv) pred_anom) targ_anom))"

definition spec_false_positive :: "int list \<Rightarrow> (int \<times> int) list \<Rightarrow> int" where
  "spec_false_positive pred_anom targ_anom =
     int (length (filter (\<lambda>anom. \<not> list_ex (\<lambda>iv. in_interval iv anom) targ_anom) pred_anom))"

text \<open>
  The number of intervals that are the first one in list order to contain some predicted
  index: the positions \<open>i\<close> of the list for which some predicted index lies in the interval
  at \<open>i\<close> and in no interval at a position before \<open>i\<close>.
\<close>

definition first_hit_count :: "int list \<Rightarrow> (int \<times> int) list \<Rightarrow> int" where
  "first_hit_count pred_anom targ_anom =
     int (length (filter
       (\<lambda>i. list_ex (\<lambda>anom. in_interval (targ_anom ! i) anom \<and>
                         \<not> list_ex (\<lambda>j. in_interval (targ_anom ! j) anom) [0..<i]) pred_anom)
       [0..<length targ_anom]))"

text \<open>No integer lies in two intervals at different positions of the list.\<close>

definition disjoint_intervals :: "(int \<times> int) list \<Rightarrow> bool" where
  "disjoint_intervals targ_anom =
     (\<forall>i < length targ_anom. \<forall>j < length targ_anom. \<forall>a.
        in_interval (targ_anom ! i) a \<and> in_interval (targ_anom ! j) a \<longrightarrow> i = j)"

section \<open>NumPy arrays\<close>

text \<open>
  A two-dimensional \<^verbatim>\<open>ndarray\<close> of shape \<open>(T, F)\<close> is its number of columns together with
  its \<open>T\<close> rows (time steps), over the type of its entries; the number of columns is kept
  apart so that the shape of an array without rows is known. Every array that NumPy builds is rectangular, which is
  \<open>wf_matrix\<close>.
\<close>

datatype 'a ndarray = Matrix (ncols: nat) (rows: "'a list list")

text \<open>An array of finite \<^verbatim>\<open>float64\<close> values, each read as the real number it denotes.\<close>

type_synonym matrix = "real ndarray"

definition wf_matrix :: "'a ndarray \<Rightarrow> bool" where
  "wf_matrix m = list_all (\<lambda>r. length r = ncols m) (rows m)"

definition and_then :: "error + 'a \<Rightarrow> ('a \<Rightarrow> error + 'b) \<Rightarrow> error + 'b" where
  "and_then r f = (case r of Inl e \<Rightarrow> Inl e | Inr x \<Rightarrow> f x)"

text \<open>\<^verbatim>\<open>np.absolute(m)\<close>.\<close>

definition absolute :: "matrix \<Rightarrow> matrix" where
  "absolute m = Matrix (ncols m) (map (map abs) (rows m))"

text \<open>
  \<^verbatim>\<open>m[:, col_ids]\<close> with a list of non-negative column indices: the listed columns in
  the listed order, \<^verbatim>\<open>IndexError\<close> when an index is not a column of \<open>m\<close>.
\<close>

definition take_columns :: "matrix \<Rightarrow> nat list \<Rightarrow> error + matrix" where
  "take_columns m col_ids =
     (if list_all (\<lambda>j. j < ncols m) col_ids
      then Inr (Matrix (length col_ids) (map (\<lambda>r. map (\<lambda>j. r ! j) col_ids) (rows m)))
      else Inl (IndexError ''index is out of bounds for axis 1''))"

definition column :: "matrix \<Rightarrow> nat \<Rightarrow> real list" where
  "column m j = map (\<lambda>r. r ! j) (rows m)"

fun list_max :: "real list \<Rightarrow> real" where
  "list_max [] = 0"
| "list_max (x # xs) = fold max xs x"

fun list_min :: "real list \<Rightarrow> real" where
  "list_min [] = 0"
| "list_min (x # xs) = fold min xs x"

text \<open>
  \<^verbatim>\<open>np.amax(m, axis=0)\<close> and \<^verbatim>\<open>np.min(m, axis=0)\<close>: one value for each column. A reduction
  without identity over an axis of length zero raises \<^verbatim>\<open>ValueError\<close>.
\<close>

definition amax0 :: "matrix \<Rightarrow> error + real list" where
  "amax0 m =
     (if rows m = []
      then Inl (ValueError ''zero-size array to reduction operation maximum which has no identity'')
      else Inr (map (\<lambda>j. list_max (column m j)) [0..<ncols m]))"

definition amin0 :: "matrix \<Rightarrow> error + real list" where
  "amin0 m =
     (if rows m = []
      then Inl (ValueError ''zero-size array to reduction operation minimum which has no identity'')
      else Inr (map (\<lambda>j. list_min (column m j)) [0..<ncols m]))"

text \<open>
  An elementwise binary operation between an array of shape \<open>(T, F)\<close> and a vector of shape
  \<open>(F',)\<close>, with NumPy's broadcasting on the last axis: the vector is applied to every row;
  an axis of length one is stretched; any other mismatch raises \<^verbatim>\<open>ValueError\<close>.
\<close>

definition broadcast_rows :: "('a \<Rightarrow> 'b \<Rightarrow> 'c) \<Rightarrow> 'a ndarray \<Rightarrow> 'b list \<Rightarrow> error + 'c ndarray" where
  "broadcast_rows f m v =
     (if ncols m = length v then Inr (Matrix (ncols m) (map (\<lambda>r. map2 f r v) (rows m)))
      else if length v = 1 then Inr (Matrix (ncols m) (map (map (\<lambda>x. f x (v ! 0))) (rows m)))
      else if ncols m = 1 then Inr (Matrix (length v) (map (\<lambda>r. map (f (r ! 0)) v) (rows m)))
      else Inl (ValueError ''operands could not be broadcast together''))"

text \<open>\<^verbatim>\<open>np.concatenate((a, b), axis = 0)\<close>: the rows of \<open>a\<close>, then the rows of \<open>b\<close>.\<close>

definition concatenate0 :: "matrix \<Rightarrow> matrix \<Rightarrow> error + matrix" where
  "concatenate0 a b =
     (if ncols a = ncols b then Inr (Matrix (ncols a) (rows a @ rows b))
      else Inl (ValueError ''all the input array dimensions except for the concatenation axis must match exactly''))"

section \<open>The arithmetic of \<^verbatim>\<open>float64\<close>\<close>

text \<open>
  A \<^verbatim>\<open>float64\<close> is a finite value, \<^verbatim>\<open>inf\<close>, \<^verbatim>\<open>-inf\<close> or \<^verbatim>\<open>nan\<close>. The sign of a zero is not
  modelled: a zero is \<open>+0\<close>.
\<close>

datatype npfloat = Finite real | PosInf | NegInf | NaN

text \<open>
  Rounding to the nearest integer, a tie going to the even one.
\<close>

definition round_even :: "real \<Rightarrow> int" where
  "round_even y =
     (let f = \<lfloor>y\<rfloor>
      in if y - of_int f < 1 / 2 then f
         else if 1 / 2 < y - of_int f then f + 1
         else if even f then f else f + 1)"

text \<open>
  \<open>binade x\<close> is the exponent \<open>e\<close> with \<open>2^e \<le> |x| < 2^(e+1)\<close>. The \<^verbatim>\<open>float64\<close> numbers of that
  binade are the multiples of \<open>2^(e-52)\<close> when \<open>e\<close> is at least \<open>-1022\<close>; below \<open>2^-1022\<close>
  (the subnormal numbers) they are the multiples of \<open>2^-1074\<close>. \<open>round_f64 x\<close> is the
  multiple nearest to \<open>x\<close>, a tie going to the even significand, as in the rounding mode
  of IEEE 754 that NumPy and Python use; it is the result of an operation whose exact
  result is \<open>x\<close>, as long as it is below \<open>2^1024\<close> in magnitude.
\<close>

definition binade :: "real \<Rightarrow> int" where
  "binade x = \<lfloor>log 2 \<bar>x\<bar>\<rfloor>"

definition f64_exponent :: "real \<Rightarrow> int" where
  "f64_exponent x = max (binade x) (- 1022)"

definition round_f64 :: "real \<Rightarrow> real" where
  "round_f64 x =
     (if x = 0 then 0
      else 2 powr (of_int (f64_exponent x) - 52) *
           of_int (round_even (x / 2 powr (of_int (f64_exponent x) - 52))))"

text \<open>
  The \<^verbatim>\<open>float64\<close> of an exact result: the greatest finite number is \<open>2^1024 - 2^971\<close>, and a
  result that rounds to \<open>2^1024\<close> or beyond in magnitude overflows to an infinity.
\<close>

definition f64_of_real :: "real \<Rightarrow> npfloat" where
  "f64_of_real x =
     (let r = round_f64 x
      in if 2 ^ 1024 \<le> r then PosInf else if r \<le> - (2 ^ 1024) then NegInf else Finite r)"

text \<open>
  Negation, addition, subtraction and division. \<^verbatim>\<open>nan\<close> propagates; \<^verbatim>\<open>inf - inf\<close> and
  \<^verbatim>\<open>inf / inf\<close> are \<^verbatim>\<open>nan\<close>; a finite value over an infinity is zero. A NumPy division by
  zero does not raise: it gives \<^verbatim>\<open>inf\<close>, \<^verbatim>\<open>-inf\<close> or, for \<^verbatim>\<open>0 / 0\<close>, \<^verbatim>\<open>nan\<close>.
\<close>

fun f64_neg :: "npfloat \<Rightarrow> npfloat" where
  "f64_neg (Finite x) = Finite (- x)"
| "f64_neg PosInf = NegInf"
| "f64_neg NegInf = PosInf"
| "f64_neg NaN = NaN"

fun f64_add :: "npfloat \<Rightarrow> npfloat \<Rightarrow> npfloat" where
  "f64_add (Finite x) (Finite y) = f64_of_real (x + y)"
| "f64_add (Finite x) PosInf = PosInf"
| "f64_add (Finite x) NegInf = NegInf"
| "f64_add (Finite x) NaN = NaN"
| "f64_add PosInf (Finite y) = PosInf"
| "f64_add PosInf PosInf = PosInf"
| "f64_add PosInf NegInf = NaN"
| "f64_add PosInf NaN = NaN"
| "f64_add NegInf (Finite y) = NegInf"
| "f64_add NegInf PosInf = NaN"
| "f64_add NegInf NegInf = NegInf"
| "f64_add NegInf NaN = NaN"
| "f64_add NaN b = NaN"

definition f64_sub :: "npfloat \<Rightarrow> npfloat \<Rightarrow> npfloat" where
  "f64_sub a b = f64_add a (f64_neg b)"

fun f64_div :: "npfloat \<Rightarrow> npfloat \<Rightarrow> npfloat" where
  "f64_div (Finite x) (Finite y) =
     (if y = 0 then (if 0 < x then PosInf else if x < 0 then NegInf else NaN)
      else f64_of_real (x / y))"
| "f64_div (Finite x) PosInf = Finite 0"
| "f64_div (Finite x) NegInf = Finite 0"
| "f64_div (Finite x) NaN = NaN"
| "f64_div PosInf (Finite y) = (if 0 \<le> y then PosInf else NegInf)"
| "f64_div PosInf PosInf = NaN"
| "f64_div PosInf NegInf = NaN"
| "f64_div PosInf NaN = NaN"
| "f64_div NegInf (Finite y) = (if 0 \<le> y then NegInf else PosInf)"
| "f64_div NegInf PosInf = NaN"
| "f64_div NegInf NegInf = NaN"
| "f64_div NegInf NaN = NaN"
| "f64_div NaN b = NaN"

text \<open>
  The comparison \<^verbatim>\<open>x > t\<close> of a \<^verbatim>\<open>float64\<close> with a finite threshold: a comparison with
  \<^verbatim>\<open>nan\<close> is false.
\<close>

fun np_gt :: "npfloat \<Rightarrow> real \<Rightarrow> bool" where
  "np_gt (Finite x) t = (t < x)"
| "np_gt PosInf t = True"
| "np_gt NegInf t = False"
| "np_gt NaN t = False"

text \<open>\<^verbatim>\<open>np.where(signal > t)[0]\<close> on a one-dimensional array: the indices, ascending.\<close>

definition np_where_gt :: "npfloat list \<Rightarrow> real \<Rightarrow> nat list" where
  "np_where_gt signal t = filter (\<lambda>i. np_gt (signal ! i) t) [0..<length signal]"

section \<open>Helper functions of the module\<close>

text \<open>\<^verbatim>\<open>get_col(header, l)\<close>: the loop over \<^verbatim>\<open>enumerate(header)\<close>, with its counter.\<close>

fun get_col_from :: "string list \<Rightarrow> string \<Rightarrow> nat \<Rightarrow> error + nat" where
  "get_col_from [] l i = Inl (IndexError ''not found'')"
| "get_col_from (hl # header) l i = (if hl = l then Inr i else get_col_from header l (Suc i))"

definition get_col :: "string list \<Rightarrow> string \<Rightarrow> error + nat" where
  "get_col header l = get_col_from header l 0"

text \<open>
  \<^verbatim>\<open>concat_all_datafiles(errors, datafiles)\<close>. A dictionary is an association list in
  insertion order with distinct keys. \<open>add_models\<close> is the inner loop
  \<^verbatim>\<open>for model in error\<close> on the dictionary \<^verbatim>\<open>result\<close>; a file that is not a key of
  \<^verbatim>\<open>errors\<close> raises \<^verbatim>\<open>KeyError\<close>.
\<close>

fun add_models :: "(string \<times> matrix) list \<Rightarrow> (string \<times> matrix) list \<Rightarrow> error + (string \<times> matrix) list" where
  "add_models [] result = Inr result"
| "add_models ((model, e) # rest) result =
     (case map_of result model of
        None \<Rightarrow> add_models rest (AList.update model e result)
      | Some r \<Rightarrow>
          and_then (concatenate0 r e) (\<lambda>c. add_models rest (AList.update model c result)))"

fun concat_files ::
  "(string \<times> (string \<times> matrix) list) list \<Rightarrow> string list \<Rightarrow> (string \<times> matrix) list \<Rightarrow>
   error + (string \<times> matrix) list" where
  "concat_files errors [] result = Inr result"
| "concat_files errors (datafile # rest) result =
     (case map_of errors datafile of
        None \<Rightarrow> Inl (KeyError datafile)
      | Some error \<Rightarrow> and_then (add_models error result) (concat_files errors rest))"

definition concat_all_datafiles ::
  "(string \<times> (string \<times> matrix) list) list \<Rightarrow> string list \<Rightarrow> error + (string \<times> matrix) list" where
  "concat_all_datafiles errors datafiles = concat_files errors datafiles []"

text \<open>
  The result as the specification words it: for a model, the matrices that the listed
  files hold for it, in the order the files are listed, and their vertical concatenation.
\<close>

definition file_blocks ::
  "(string \<times> (string \<times> matrix) list) list \<Rightarrow> string list \<Rightarrow> string \<Rightarrow> matrix list" where
  "file_blocks errors datafiles model =
     List.map_filter
       (\<lambda>datafile. case map_of errors datafile of None \<Rightarrow> None | Some error \<Rightarrow> map_of error model)
       datafiles"

definition vstack :: "nat \<Rightarrow> matrix list \<Rightarrow> matrix" where
  "vstack w ms = Matrix w (concat (map rows ms))"

text \<open>
  The invariant of the loop over the files: after the files \<open>done\<close>, the dictionary
  \<^verbatim>\<open>result\<close> holds, for every model that one of them has, the concatenation of its blocks.
\<close>

definition concat_inv ::
  "(string \<times> (string \<times> matrix) list) list \<Rightarrow> nat \<Rightarrow> string list \<Rightarrow> (string \<times> matrix) list \<Rightarrow> bool" where
  "concat_inv errors w done result \<longleftrightarrow>
     distinct (map fst result) \<and>
     (\<forall>k. map_of result k =
        (if file_blocks errors done k = [] then None
         else Some (vstack w (file_blocks errors done k))))"

text \<open>\<^verbatim>\<open>eps = 1E-5\<close>.\<close>

definition eps :: real where
  "eps = 1 / 100000"

text \<open>
  \<^verbatim>\<open>normalize_error(data)\<close>:
  \<^verbatim>\<open>np.divide((data-min_data),(max_data-min_data+eps))\<close> with the column maxima and minima
  of \<^verbatim>\<open>data\<close>, an array of finite values. The two subtractions, the addition and the
  division are operations of \<^verbatim>\<open>float64\<close>, and \<^verbatim>\<open>eps\<close> is the \<^verbatim>\<open>float64\<close> of the literal
  \<^verbatim>\<open>1E-5\<close>; the result can hold \<^verbatim>\<open>inf\<close> and \<^verbatim>\<open>nan\<close>.
\<close>

definition normalize_error :: "matrix \<Rightarrow> error + npfloat ndarray" where
  "normalize_error data =
     and_then (amax0 data) (\<lambda>max_data.
     and_then (amin0 data) (\<lambda>min_data.
     and_then (broadcast_rows (\<lambda>x y. f64_sub (Finite x) (Finite y)) data min_data) (\<lambda>num.
       broadcast_rows f64_div num
         (map (\<lambda>d. f64_add d (f64_of_real eps))
            (map2 (\<lambda>x y. f64_sub (Finite x) (Finite y)) max_data min_data)))))"

text \<open>
  The same expression in exact arithmetic, as the formula \<open>(x - min) / (max - min + \<epsilon>)\<close> of
  the specification reads, for the comparison with \<open>normalize_error\<close>.
\<close>

definition normalize_error_exact :: "matrix \<Rightarrow> error + matrix" where
  "normalize_error_exact data =
     and_then (amax0 data) (\<lambda>max_data.
     and_then (amin0 data) (\<lambda>min_data.
     and_then (broadcast_rows (-) data min_data) (\<lambda>num.
       broadcast_rows (/) num (map (\<lambda>d. d + eps) (map2 (-) max_data min_data)))))"




section \<open>The module \<^verbatim>\<open>anomalies\<close>\<close>

text \<open>
  \<^verbatim>\<open>from . import anomalies as ano\<close>: the functions of that module are parameters of the
  model, one field for each function that \<^verbatim>\<open>AnomalyParameters\<close> calls. A fitted
  \<^verbatim>\<open>ErrorNormalizationModel\<close> is a value of the type \<open>'m\<close>; creating the object and calling
  its \<^verbatim>\<open>fit(error, conv, fit_gauss = ..., display = ...)\<close> is the one function
  \<open>ErrorNormalizationModel_fit\<close>, whose third argument is \<open>None\<close> when the call does not
  pass \<^verbatim>\<open>fit_gauss\<close>. The functions that \<^verbatim>\<open>compute_anomalies\<close> calls on \<^verbatim>\<open>error_norm\<close> take
  the array that \<open>normalize_error\<close> returns. The triple that \<^verbatim>\<open>compute_anomalies\<close> returns is
  \<open>(anomalies, ano_signal, ano_peaks)\<close>, where Python's \<^verbatim>\<open>None\<close> is \<open>None\<close>.
\<close>

type_synonym anomaly_signal = "nat list \<times> npfloat list option \<times> nat list option"

record 'm anomalies =
  ErrorNormalizationModel_fit :: "matrix \<Rightarrow> real list \<Rightarrow> bool option \<Rightarrow> bool \<Rightarrow> error + 'm"
  ErrorNormalizationModel_anomaly_dates ::
    "'m \<Rightarrow> matrix \<Rightarrow> real \<Rightarrow> real list \<Rightarrow> bool \<Rightarrow> error + anomaly_signal"
  anomaly_dates_peaks :: "npfloat ndarray \<Rightarrow> int \<Rightarrow> real list \<Rightarrow> int \<Rightarrow> error + anomaly_signal"
  error_vote :: "npfloat ndarray \<Rightarrow> int \<Rightarrow> real list \<Rightarrow> error + npfloat list"
  anomaly_dates_votes :: "npfloat list \<Rightarrow> int \<Rightarrow> error + nat list"
  sum_conv_error :: "npfloat ndarray \<Rightarrow> real list \<Rightarrow> error + npfloat list"

text \<open>
  Modelled from the spec: the default of the keyword \<^verbatim>\<open>fit_gauss\<close> of
  \<^verbatim>\<open>ErrorNormalizationModel.fit\<close>, which is declared in the module \<^verbatim>\<open>anomalies\<close>. The
  specification gives the signature as \<^verbatim>\<open>fit(error_matrix, smoothing_window, use_gaussian=False)\<close>.
\<close>

definition fit_gauss_default :: bool where
  "fit_gauss_default = False"

definition fit_gauss_mode :: "bool option \<Rightarrow> bool" where
  "fit_gauss_mode fit_gauss = (case fit_gauss of None \<Rightarrow> fit_gauss_default | Some b \<Rightarrow> b)"

section \<open>The class \<^verbatim>\<open>AnomalyParameters\<close>\<close>

record 'm AnomalyParameters =
  "method" :: string
  smooth_factor :: int
  labels :: "string list"
  ignore :: "string list"
  threshold :: real
  n_anomalies :: int
  peak_width :: int
  err_norm_model :: "'m option"

text \<open>
  \<^verbatim>\<open>__init__(self, method, smooth_factor, threshold, n_anomalies, peaks_width, ignore)\<close>. The
  argument \<^verbatim>\<open>peaks_width\<close> may be any Python value, so its type is a type variable.
\<close>

definition AnomalyParameters_init ::
  "string \<Rightarrow> int \<Rightarrow> real \<Rightarrow> int \<Rightarrow> 'w \<Rightarrow> string list \<Rightarrow> 'm AnomalyParameters" where
  "AnomalyParameters_init method' smooth_factor' threshold' n_anomalies' peaks_width' ignore' =
     \<lparr>method = method', smooth_factor = smooth_factor', labels = [], ignore = ignore',
      threshold = threshold', n_anomalies = n_anomalies', peak_width = 10,
      err_norm_model = None\<rparr>"

definition available_methods :: "string list" where
  "available_methods = [''threshold_norm'', ''threshold'', ''peaks'', ''votes'', ''gaussian'']"

text \<open>
  \<^verbatim>\<open>str(xs)\<close> for a list of strings that hold no quote, backslash or control character:
  every element between single quotes, separated by a comma and a space.
\<close>

fun py_join :: "string list \<Rightarrow> string" where
  "py_join [] = []"
| "py_join [s] = s"
| "py_join (s # rest) = s @ '', '' @ py_join rest"

definition py_str_list :: "string list \<Rightarrow> string" where
  "py_str_list xs = ''['' @ py_join (map (\<lambda>s. [CHR 0x27] @ s @ [CHR 0x27]) xs) @ '']''"

text \<open>
  \<^verbatim>\<open>c = self.smooth_factor + 1; conv = [1 / c] * c\<close>: the division raises when \<open>c\<close> is
  zero and gives the \<^verbatim>\<open>float64\<close> nearest to \<open>1 / c\<close> otherwise, and a list times a negative
  integer is the empty list.
\<close>

definition conv_kernel :: "int \<Rightarrow> error + real list" where
  "conv_kernel smooth_factor' =
     (let c = smooth_factor' + 1
      in if c = 0 then Inl ZeroDivisionError
         else Inr (replicate (nat c) (round_f64 (1 / real_of_int c))))"

text \<open>
  The loop that eliminates the ignored labels,
  \<^verbatim>\<open>for lbl in self.labels: if lbl not in self.ignore: col_ids.append(get_col(self.labels,lbl))\<close>.
\<close>

fun select_columns :: "string list \<Rightarrow> string list \<Rightarrow> string list \<Rightarrow> error + nat list" where
  "select_columns header ign [] = Inr []"
| "select_columns header ign (lbl # rest) =
     (if lbl \<notin> set ign
      then and_then (get_col header lbl) (\<lambda>i.
           and_then (select_columns header ign rest) (\<lambda>col_ids. Inr (i # col_ids)))
      else select_columns header ign rest)"

definition col_ids_of :: "'m AnomalyParameters \<Rightarrow> error + nat list" where
  "col_ids_of self = select_columns (labels self) (ignore self) (labels self)"

text \<open>
  \<^verbatim>\<open>AnomalyParameters.fit(self, error)\<close>: the model is fitted by
  \<^verbatim>\<open>err_norm_model.fit(error, conv, display = True)\<close>, a call that does not pass
  \<^verbatim>\<open>fit_gauss\<close>, and stored in \<^verbatim>\<open>self.err_norm_model\<close>.
\<close>

definition AnomalyParameters_fit ::
  "'m anomalies \<Rightarrow> 'm AnomalyParameters \<Rightarrow> matrix \<Rightarrow> error + 'm AnomalyParameters" where
  "AnomalyParameters_fit ano self error =
     and_then (conv_kernel (smooth_factor self)) (\<lambda>conv.
     and_then (col_ids_of self) (\<lambda>col_ids.
     and_then (take_columns error col_ids) (\<lambda>error.
     and_then (ErrorNormalizationModel_fit ano error conv None True) (\<lambda>err_norm_model.
       Inr (self\<lparr>err_norm_model := Some err_norm_model\<rparr>)))))"

text \<open>
  \<^verbatim>\<open>AnomalyParameters.compute_anomalies(self, error, display)\<close>. The test
  \<^verbatim>\<open>if not err_norm_model\<close> is true for \<^verbatim>\<open>None\<close> and false for a model object. In the
  branch \<^verbatim>\<open>threshold\<close> the trace that \<^verbatim>\<open>sum_conv_error\<close> returns is divided, entry by entry
  and in \<^verbatim>\<open>float64\<close>, by \<^verbatim>\<open>len(col_ids)\<close>.
\<close>

definition compute_anomalies ::
  "'m anomalies \<Rightarrow> 'm AnomalyParameters \<Rightarrow> matrix \<Rightarrow> bool \<Rightarrow> error + anomaly_signal" where
  "compute_anomalies ano self error display =
     and_then (conv_kernel (smooth_factor self)) (\<lambda>conv.
     and_then (col_ids_of self) (\<lambda>col_ids.
     and_then (take_columns error col_ids) (\<lambda>error.
     and_then (normalize_error (absolute error)) (\<lambda>error_norm.
       if method self = ''threshold_norm'' then
         and_then
           (case err_norm_model self of
              None \<Rightarrow> ErrorNormalizationModel_fit ano error conv None display
            | Some m \<Rightarrow> Inr m)
           (\<lambda>err_norm_model.
              ErrorNormalizationModel_anomaly_dates ano err_norm_model error (threshold self) conv display)
       else if method self = ''gaussian'' then
         and_then
           (case err_norm_model self of
              None \<Rightarrow> ErrorNormalizationModel_fit ano error conv (Some True) display
            | Some m \<Rightarrow> Inr m)
           (\<lambda>gauss_model.
              ErrorNormalizationModel_anomaly_dates ano gauss_model error (threshold self) conv display)
       else if method self = ''peaks'' then
         anomaly_dates_peaks ano error_norm (n_anomalies self) conv (peak_width self)
       else if method self = ''votes'' then
         and_then (error_vote ano error_norm (n_anomalies self) conv) (\<lambda>ano_signal.
         and_then (anomaly_dates_votes ano ano_signal (n_anomalies self)) (\<lambda>anomalies.
           Inr (anomalies, Some ano_signal, None)))
       else if method self = ''threshold'' then
         and_then (sum_conv_error ano error_norm conv) (\<lambda>summed.
           let error_norm = map (\<lambda>x. f64_div x (f64_of_real (real (length col_ids)))) summed
           in Inr (np_where_gt error_norm (threshold self), Some error_norm, None))
       else
         Inl (ValueError (''Unknown anomaly method: '' @ method self @
                ''. Available methods are '' @ py_str_list available_methods))))))"

text \<open>
  A stand-in for the module \<^verbatim>\<open>anomalies\<close> that lets the arguments of its functions be read
  off the result: the fitted model is the triple of the arguments of \<^verbatim>\<open>fit\<close>;
  \<^verbatim>\<open>anomaly_dates\<close> answers with the index \<open>1\<close> for a model fitted in Gaussian mode and \<open>0\<close>
  otherwise, and with the entries of the matrix the model was fitted on followed by the
  entries of the matrix it is queried with; \<^verbatim>\<open>sum_conv_error\<close> sums every row, from the
  left and in \<^verbatim>\<open>float64\<close>.
\<close>

definition recording_anomalies :: "(matrix \<times> real list \<times> bool option) anomalies" where
  "recording_anomalies =
     \<lparr>ErrorNormalizationModel_fit = (\<lambda>error conv fit_gauss display.
        Inr (error, conv, fit_gauss)),
      ErrorNormalizationModel_anomaly_dates = (\<lambda>m error t conv display.
        Inr ([if fit_gauss_mode (snd (snd m)) then 1 else 0],
             Some (map Finite (concat (rows (fst m)) @ concat (rows error))), None)),
      anomaly_dates_peaks = (\<lambda>error_norm n conv w. Inr ([], None, None)),
      error_vote = (\<lambda>error_norm n conv. Inr []),
      anomaly_dates_votes = (\<lambda>ano_signal n. Inr []),
      sum_conv_error = (\<lambda>error_norm conv.
        Inr (map (\<lambda>r. foldl f64_add (Finite 0) r) (rows error_norm)))\<rparr>"


section \<open>Sequencing of calls that can raise\<close>

lemma and_then_Inl [simp]: "and_then (Inl e) f = Inl e"
  by (simp add: and_then_def)

lemma and_then_Inr [simp]: "and_then (Inr x) f = f x"
  by (simp add: and_then_def)

lemma and_then_eq_Inr:
  "and_then r f = Inr y \<longleftrightarrow> (\<exists>x. r = Inr x \<and> f x = Inr y)"
  by (cases r) simp_all

section \<open>Properties of the evaluator\<close>

text \<open>The inner loop finds nothing exactly when no interval contains the index.\<close>

lemma first_match_None: "first_match targ a k = None \<longleftrightarrow> (\<forall>iv \<in> set targ. \<not> in_interval iv a)"
  by (induction targ a k rule: first_match.induct) (auto simp: in_interval_def)

lemma first_match_SomeD:
  "first_match targ a k = Some i \<Longrightarrow> k \<le> i \<and> i - k < length targ \<and> in_interval (targ ! (i - k)) a"
proof (induction targ a k rule: first_match.induct)
  case (1 anom i)
  then show ?case by simp
next
  case (2 start "end" rest anom k)
  show ?case
  proof (cases "start \<le> anom \<and> anom \<le> end")
    case True
    with 2 show ?thesis by (simp add: in_interval_def)
  next
    case False
    with 2 have "Suc k \<le> i \<and> i - Suc k < length rest \<and> in_interval (rest ! (i - Suc k)) anom"
      by simp
    moreover from this have "i - k = Suc (i - Suc k)" by arith
    ultimately show ?thesis by simp
  qed
qed

text \<open>
  The inner loop returns the least position whose interval contains the index: the interval
  at the position it returns contains the index, and no interval before it does.
\<close>

lemma first_match_Some_iff:
  "first_match targ a k = Some i \<longleftrightarrow>
     k \<le> i \<and> i - k < length targ \<and> in_interval (targ ! (i - k)) a \<and>
     (\<forall>j < i - k. \<not> in_interval (targ ! j) a)"
proof (induction targ arbitrary: k)
  case Nil
  then show ?case by simp
next
  case (Cons iv rest)
  obtain s e where iv: "iv = (s, e)" by (cases iv)
  show ?case
  proof (cases "in_interval iv a")
    case True
    have "(k \<le> i \<and> i - k < length (iv # rest) \<and> in_interval ((iv # rest) ! (i - k)) a \<and>
           (\<forall>j < i - k. \<not> in_interval ((iv # rest) ! j) a)) \<longleftrightarrow> i = k"
    proof
      assume h: "k \<le> i \<and> i - k < length (iv # rest) \<and> in_interval ((iv # rest) ! (i - k)) a \<and>
           (\<forall>j < i - k. \<not> in_interval ((iv # rest) ! j) a)"
      show "i = k"
      proof (rule ccontr)
        assume "i \<noteq> k"
        with h have "0 < i - k" by simp
        with h have "\<not> in_interval ((iv # rest) ! 0) a" by blast
        with True show False by simp
      qed
    next
      assume "i = k"
      with True show "k \<le> i \<and> i - k < length (iv # rest) \<and> in_interval ((iv # rest) ! (i - k)) a \<and>
           (\<forall>j < i - k. \<not> in_interval ((iv # rest) ! j) a)" by simp
    qed
    moreover from True have "first_match (iv # rest) a k = Some k"
      by (simp add: iv in_interval_def)
    ultimately show ?thesis by auto
  next
    case False
    then have f: "first_match (iv # rest) a k = first_match rest a (Suc k)"
      by (auto simp: iv in_interval_def)
    have "(k \<le> i \<and> i - k < length (iv # rest) \<and> in_interval ((iv # rest) ! (i - k)) a \<and>
           (\<forall>j < i - k. \<not> in_interval ((iv # rest) ! j) a)) \<longleftrightarrow>
          (Suc k \<le> i \<and> i - Suc k < length rest \<and> in_interval (rest ! (i - Suc k)) a \<and>
           (\<forall>j < i - Suc k. \<not> in_interval (rest ! j) a))"
    proof (cases "Suc k \<le> i")
      case True
      then have d: "i - k = Suc (i - Suc k)" by simp
      have "(\<forall>j < Suc (i - Suc k). \<not> in_interval ((iv # rest) ! j) a) \<longleftrightarrow>
            (\<forall>j < i - Suc k. \<not> in_interval (rest ! j) a)"
        using False by (auto simp: less_Suc_eq_0_disj)
      with True show ?thesis unfolding d by auto
    next
      case n: False
      show ?thesis
      proof (cases "i = k")
        case True
        with False n show ?thesis by simp
      next
        case False
        with n show ?thesis by simp
      qed
    qed
    with Cons.IH[of "Suc k"] f show ?thesis by simp
  qed
qed

text \<open>The positions counted by \<open>first_hit_count\<close> are the ones the inner loop returns.\<close>

lemma first_hit_count_loop:
  "first_hit_count pred targ =
     int (length (filter (\<lambda>i. list_ex (\<lambda>anom. first_match targ anom 0 = Some i) pred)
                    [0..<length targ]))"
proof -
  have "filter (\<lambda>i. list_ex (\<lambda>anom. first_match targ anom 0 = Some i) pred) [0..<length targ] =
        filter (\<lambda>i. list_ex (\<lambda>anom. in_interval (targ ! i) anom \<and>
                         \<not> list_ex (\<lambda>j. in_interval (targ ! j) anom) [0..<i]) pred) [0..<length targ]"
    by (rule filter_cong) (auto simp: first_match_Some_iff list_ex_iff)
  then show ?thesis by (simp add: first_hit_count_def)
qed

lemma first_match_disjoint:
  assumes "disjoint_intervals targ" "j < length targ"
  shows "first_match targ a 0 = Some j \<longleftrightarrow> in_interval (targ ! j) a"
proof
  assume "first_match targ a 0 = Some j"
  from first_match_SomeD[OF this] show "in_interval (targ ! j) a" by simp
next
  assume h: "in_interval (targ ! j) a"
  with assms(2) have "first_match targ a 0 \<noteq> None"
    by (auto simp: first_match_None)
  then obtain i where i: "first_match targ a 0 = Some i" by auto
  from first_match_SomeD[OF i] have "i < length targ" "in_interval (targ ! i) a" by simp_all
  with assms h have "i = j" unfolding disjoint_intervals_def by blast
  with i show "first_match targ a 0 = Some j" by simp
qed

lemma scan_predictions_inv:
  "scan_predictions targ pred (found, fps) = (found', fps') \<Longrightarrow>
     length found' = length found \<and>
     (\<forall>i < length found. found' ! i = (found ! i \<or> (\<exists>a \<in> set pred. first_match targ a 0 = Some i))) \<and>
     fps' = fps @ filter (\<lambda>a. first_match targ a 0 = None) pred"
proof (induction pred arbitrary: found fps)
  case Nil
  then show ?case by simp
next
  case (Cons a pred)
  show ?case
  proof (cases "first_match targ a 0")
    case None
    with Cons.prems have "scan_predictions targ pred (found, fps @ [a]) = (found', fps')" by simp
    from Cons.IH[OF this] None show ?thesis by auto
  next
    case (Some k)
    with Cons.prems have "scan_predictions targ pred (found[k := True], fps) = (found', fps')" by simp
    from Cons.IH[OF this] have
      l: "length found' = length found" and
      f: "\<forall>i<length found. found' ! i = (found[k := True] ! i \<or> (\<exists>a\<in>set pred. first_match targ a 0 = Some i))" and
      p: "fps' = fps @ filter (\<lambda>a. first_match targ a 0 = None) pred"
      by simp_all
    have "found' ! i = (found ! i \<or> (\<exists>b\<in>set (a # pred). first_match targ b 0 = Some i))"
      if "i < length found" for i
      using f that Some by (cases "i = k") auto
    with l p Some show ?thesis by simp
  qed
qed

lemma length_filter_nth:
  "length (filter (\<lambda>i. P (xs ! i)) [0..<length xs]) = length (filter P xs)"
proof -
  have "filter P xs = filter P (map ((!) xs) [0..<length xs])"
    by (simp add: map_nth)
  also have "\<dots> = map ((!) xs) (filter (\<lambda>i. P (xs ! i)) [0..<length xs])"
    by (simp add: filter_map comp_def)
  finally show ?thesis by simp
qed

lemma count_true_conv: "length (filter (\<lambda>b. b) xs) = length (filter (\<lambda>i. xs ! i) [0..<length xs])"
  using length_filter_nth[of "\<lambda>b. b" xs] by simp

lemma get_anomaly_results_char:
  "get_anomaly_results pred targ =
     (first_hit_count pred targ, int (length targ) - first_hit_count pred targ,
      spec_false_positive pred targ)"
proof -
  obtain found fps where s:
    "scan_predictions targ pred (replicate (length targ) False, []) = (found, fps)"
    by (cases "scan_predictions targ pred (replicate (length targ) False, [])")
  from scan_predictions_inv[OF s] have
    l: "length found = length targ" and
    f: "\<forall>i<length targ. found ! i = (\<exists>a\<in>set pred. first_match targ a 0 = Some i)" and
    p: "fps = filter (\<lambda>a. first_match targ a 0 = None) pred"
    by simp_all
  have "filter (\<lambda>i. found ! i) [0..<length found] =
        filter (\<lambda>i. list_ex (\<lambda>anom. first_match targ anom 0 = Some i) pred) [0..<length targ]"
    unfolding l by (rule filter_cong) (auto simp: f list_ex_iff)
  then have tp: "int (length (filter (\<lambda>b. b) found)) = first_hit_count pred targ"
    by (simp add: count_true_conv first_hit_count_loop)
  have "fps = filter (\<lambda>anom. \<not> list_ex (\<lambda>iv. in_interval iv anom) targ) pred"
    unfolding p by (rule filter_cong) (auto simp: first_match_None list_ex_iff)
  then have fp: "int (length fps) = spec_false_positive pred targ"
    by (simp add: spec_false_positive_def)
  show ?thesis
    by (simp add: get_anomaly_results_def s tp fp Let_def)
qed

lemma first_hit_count_disjoint:
  assumes "disjoint_intervals targ"
  shows "first_hit_count pred targ = spec_true_positive pred targ"
proof -
  have "filter (\<lambda>i. list_ex (\<lambda>anom. first_match targ anom 0 = Some i) pred) [0..<length targ] =
        filter (\<lambda>i. list_ex (in_interval (targ ! i)) pred) [0..<length targ]"
    by (rule filter_cong) (auto simp: first_match_disjoint[OF assms] list_ex_iff)
  moreover have "length (filter (\<lambda>i. list_ex (in_interval (targ ! i)) pred) [0..<length targ]) =
        length (filter (\<lambda>iv. list_ex (in_interval iv) pred) targ)"
    by (rule length_filter_nth)
  ultimately show ?thesis
    by (simp add: first_hit_count_loop spec_true_positive_def)
qed


text \<open>
  Claim C1, as amended. For every list of predicted indices and every list of intervals,
  \<^verbatim>\<open>get_anomaly_results\<close> returns \<open>(tp, fn, fp)\<close> where \<open>tp\<close> is the number of intervals that
  are the first one in list order to contain some predicted index (the intervals that
  contain a predicted index which no interval before them contains), \<open>fn\<close> is the number
  of intervals minus \<open>tp\<close>, and \<open>fp\<close> is the number of predicted indices that no interval
  contains. When no integer lies in two intervals of the list, \<open>tp\<close> is the number of
  intervals that contain at least one predicted index. For the intervals
  \<open>[(10,20),(50,60)]\<close> and the predictions \<open>[12,15,55,70]\<close> the result is \<open>(2, 0, 1)\<close> and
  \<^verbatim>\<open>get_anomaly_score\<close> returns the recall \<open>1\<close> and the second ratio \<open>2/3\<close>.
\<close>

theorem get_anomaly_results_counts:
  "get_anomaly_results pred_anom targ_anom =
     (first_hit_count pred_anom targ_anom,
      int (length targ_anom) - first_hit_count pred_anom targ_anom,
      spec_false_positive pred_anom targ_anom) \<and>
   (disjoint_intervals targ_anom \<longrightarrow>
      first_hit_count pred_anom targ_anom = spec_true_positive pred_anom targ_anom) \<and>
   get_anomaly_results [12, 15, 55, 70] [(10, 20), (50, 60)] = (2, 0, 1) \<and>
   get_anomaly_score [12, 15, 55, 70] [(10, 20), (50, 60)] = Inr (1, 2 / 3)"
proof -
  have "get_anomaly_results [12, 15, 55, 70] [(10, 20), (50, 60)] = (2, 0, 1)"
    by (simp add: get_anomaly_results_def)
  moreover from this have "get_anomaly_score [12, 15, 55, 70] [(10, 20), (50, 60)] = Inr (1, 2 / 3)"
    by (simp add: get_anomaly_score_def py_truediv_def)
  ultimately show ?thesis
    using get_anomaly_results_char first_hit_count_disjoint by simp
qed

text \<open>
  The intervals of the scenario are disjoint, and the counts of the specification are the
  ones the function returns there.
\<close>

theorem get_anomaly_results_counts_witness:
  "disjoint_intervals [(10, 20), (50, 60)] \<and>
   get_anomaly_results [12, 15, 55, 70] [(10, 20), (50, 60)] =
     (spec_true_positive [12, 15, 55, 70] [(10, 20), (50, 60)],
      2 - spec_true_positive [12, 15, 55, 70] [(10, 20), (50, 60)],
      spec_false_positive [12, 15, 55, 70] [(10, 20), (50, 60)]) \<and>
   spec_true_positive [12, 15, 55, 70] [(10, 20), (50, 60)] = 2 \<and>
   spec_false_positive [12, 15, 55, 70] [(10, 20), (50, 60)] = 1"
proof -
  have d: "disjoint_intervals [(10, 20), (50, 60)]"
    by (auto simp: disjoint_intervals_def in_interval_def nth_Cons split: nat.splits)
  have "spec_true_positive [12, 15, 55, 70] [(10, 20), (50, 60)] = 2"
    by (simp add: spec_true_positive_def in_interval_def)
  moreover have "spec_false_positive [12, 15, 55, 70] [(10, 20), (50, 60)] = 1"
    by (simp add: spec_false_positive_def in_interval_def)
  ultimately show ?thesis
    using d get_anomaly_results_counts [of "[12, 15, 55, 70]" "[(10, 20), (50, 60)]"] by simp
qed

text \<open>
  Claim C1 as stated fails when intervals overlap: the index \<open>17\<close> lies in both \<open>(10,20)\<close>
  and \<open>(15,25)\<close>, the loop stops at the first of them, and the function counts one found
  interval where two intervals contain a predicted index.
\<close>

theorem overlapping_intervals_counterexample:
  "get_anomaly_results [17] [(10, 20), (15, 25)] = (1, 1, 0) \<and>
   first_hit_count [17] [(10, 20), (15, 25)] = 1 \<and>
   spec_true_positive [17] [(10, 20), (15, 25)] = 2"
  by (simp add: get_anomaly_results_def spec_true_positive_def first_hit_count_def in_interval_def)

text \<open>Every predicted index is counted: it finds an interval or it is a false positive.\<close>

lemma first_hit_count_nonneg: "0 \<le> first_hit_count pred targ"
  by (simp add: first_hit_count_loop)

lemma spec_false_positive_nonneg: "0 \<le> spec_false_positive pred targ"
  by (simp add: spec_false_positive_def)

lemma some_count_positive:
  assumes "pred \<noteq> []"
  shows "0 < first_hit_count pred targ + spec_false_positive pred targ"
proof -
  from assms obtain a where a: "a \<in> set pred" by (cases pred) auto
  show ?thesis
  proof (cases "first_match targ a 0")
    case None
    with a have "a \<in> set (filter (\<lambda>anom. \<not> list_ex (\<lambda>iv. in_interval iv anom) targ) pred)"
      by (auto simp: first_match_None list_ex_iff)
    then have "0 < length (filter (\<lambda>anom. \<not> list_ex (\<lambda>iv. in_interval iv anom) targ) pred)"
      by (rule length_pos_if_in_set)
    then have "0 < spec_false_positive pred targ"
      by (simp add: spec_false_positive_def)
    with first_hit_count_nonneg[of pred targ] show ?thesis by simp
  next
    case (Some i)
    from first_match_SomeD[OF Some] have "i < length targ" by simp
    with a Some have "i \<in> set (filter (\<lambda>i. list_ex (\<lambda>anom. first_match targ anom 0 = Some i) pred)
                    [0..<length targ])"
      by (auto simp: list_ex_iff)
    then have "0 < length (filter (\<lambda>i. list_ex (\<lambda>anom. first_match targ anom 0 = Some i) pred)
                    [0..<length targ])"
      by (rule length_pos_if_in_set)
    then have "0 < first_hit_count pred targ"
      by (simp add: first_hit_count_loop)
    with spec_false_positive_nonneg[of pred targ] show ?thesis by simp
  qed
qed

lemma counts_of_no_predictions:
  "first_hit_count [] targ = 0" "spec_false_positive [] targ = 0"
  by (simp_all add: first_hit_count_loop spec_false_positive_def)

lemma get_anomaly_score_raises_iff:
  "get_anomaly_score pred targ = Inl ZeroDivisionError \<longleftrightarrow> targ = [] \<or> pred = []"
proof (cases "pred = []")
  case True
  then show ?thesis
    by (simp add: get_anomaly_score_def get_anomaly_results_char counts_of_no_predictions
        py_truediv_def)
next
  case False
  from some_count_positive[OF False, of targ]
  show ?thesis using False
    by (auto simp: get_anomaly_score_def get_anomaly_results_char py_truediv_def)
qed

text \<open>
  Claim C2, as amended. For an empty list of predicted indices and the single interval
  \<open>(10,20)\<close>, \<^verbatim>\<open>get_anomaly_results\<close> returns \<open>(0, 1, 0)\<close>. The recall quotient \<open>0 / (0 + 1)\<close>
  is \<open>0\<close>, the second quotient \<open>0 / (0 + 0)\<close> raises \<^verbatim>\<open>ZeroDivisionError\<close>, and
  \<^verbatim>\<open>get_anomaly_score\<close> does not handle it: the call raises \<^verbatim>\<open>ZeroDivisionError\<close> and
  returns no pair. In general \<^verbatim>\<open>get_anomaly_score\<close> raises \<^verbatim>\<open>ZeroDivisionError\<close> exactly
  when the list of intervals or the list of predicted indices is empty.
\<close>

theorem get_anomaly_score_empty_predictions:
  "get_anomaly_results [] [(10, 20)] = (0, 1, 0) \<and>
   py_truediv 0 (0 + 1) = Inr 0 \<and>
   py_truediv 0 (0 + 0) = Inl ZeroDivisionError \<and>
   get_anomaly_score [] [(10, 20)] = Inl ZeroDivisionError \<and>
   (get_anomaly_score pred_anom targ_anom = Inl ZeroDivisionError \<longleftrightarrow>
      targ_anom = [] \<or> pred_anom = [])"
proof -
  have "get_anomaly_results [] [(10, 20)] = (0, 1, 0)"
    by (simp add: get_anomaly_results_def)
  moreover from this have "get_anomaly_score [] [(10, 20)] = Inl ZeroDivisionError"
    by (simp add: get_anomaly_score_def py_truediv_def)
  ultimately show ?thesis
    using get_anomaly_score_raises_iff by (simp add: py_truediv_def)
qed

text \<open>
  Claim C2 as stated fails: at this input the call ends in the exception of the division
  and no pair with a recall component comes back.
\<close>

theorem get_anomaly_score_no_recall_counterexample:
  "get_anomaly_score [] [(10, 20)] = Inl ZeroDivisionError \<and>
   (\<forall>r. get_anomaly_score [] [(10, 20)] \<noteq> Inr (0, r))"
  by (simp add: get_anomaly_score_def get_anomaly_results_def py_truediv_def)

section \<open>Properties of \<^verbatim>\<open>concat_all_datafiles\<close>\<close>

text \<open>
  The inner loop merges the dictionary of one file into \<^verbatim>\<open>result\<close>: a model that is new
  is stored, a model that is there has its block appended.
\<close>

lemma concatenate0_same_width:
  "ncols r = ncols m \<Longrightarrow> concatenate0 r m = Inr (Matrix (ncols r) (rows r @ rows m))"
  by (simp add: concatenate0_def)

lemma add_models_spec:
  assumes "distinct (map fst e)"
    and "\<forall>k m r. map_of e k = Some m \<longrightarrow> map_of res k = Some r \<longrightarrow> ncols r = ncols m"
  shows "\<exists>res'. add_models e res = Inr res' \<and>
      (distinct (map fst res) \<longrightarrow> distinct (map fst res')) \<and>
      (\<forall>k. map_of res' k =
         (case map_of e k of
            None \<Rightarrow> map_of res k
          | Some m \<Rightarrow>
              (case map_of res k of
                 None \<Rightarrow> Some m
               | Some r \<Rightarrow> Some (Matrix (ncols r) (rows r @ rows m)))))"
  using assms
proof (induction e arbitrary: res)
  case Nil
  then show ?case by simp
next
  case (Cons p rest)
  obtain model m where p: "p = (model, m)" by (cases p)
  from Cons.prems(1) p have d: "distinct (map fst rest)" and nm: "map_of rest model = None"
    by (auto simp: map_of_eq_None_iff)
  define v where "v = (case map_of res model of None \<Rightarrow> m | Some r \<Rightarrow> Matrix (ncols r) (rows r @ rows m))"
  define res1 where "res1 = AList.update model v res"
  have step: "add_models (p # rest) res = add_models rest res1"
  proof (cases "map_of res model")
    case None
    then show ?thesis by (simp add: p res1_def v_def)
  next
    case (Some r)
    moreover from p have "map_of (p # rest) model = Some m" by simp
    ultimately have "ncols r = ncols m" using Cons.prems(2) by blast
    with Some show ?thesis
      by (simp add: p res1_def v_def concatenate0_same_width and_then_def)
  qed
  have m1: "map_of res1 k = (if k = model then Some v else map_of res k)" for k
    by (simp add: res1_def update_conv')
  have "ncols r = ncols m'" if "map_of rest k = Some m'" "map_of res1 k = Some r" for k m' r
  proof -
    from that(1) nm have "k \<noteq> model" by auto
    with that m1 have "map_of res k = Some r" by simp
    moreover from that(1) \<open>k \<noteq> model\<close> p have "map_of (p # rest) k = Some m'" by simp
    ultimately show ?thesis using Cons.prems(2) by blast
  qed
  then have pre: "\<forall>k m' r. map_of rest k = Some m' \<longrightarrow> map_of res1 k = Some r \<longrightarrow> ncols r = ncols m'"
    by blast
  from Cons.IH[OF d pre] obtain res' where
    r: "add_models rest res1 = Inr res'" and
    dd: "distinct (map fst res1) \<longrightarrow> distinct (map fst res')" and
    mm: "\<And>k. map_of res' k =
         (case map_of rest k of
            None \<Rightarrow> map_of res1 k
          | Some m \<Rightarrow>
              (case map_of res1 k of
                 None \<Rightarrow> Some m
               | Some r \<Rightarrow> Some (Matrix (ncols r) (rows r @ rows m))))"
    by blast
  have "distinct (map fst res) \<longrightarrow> distinct (map fst res')"
    using dd by (simp add: res1_def distinct_update)
  moreover have "map_of res' k =
         (case map_of (p # rest) k of
            None \<Rightarrow> map_of res k
          | Some m \<Rightarrow>
              (case map_of res k of
                 None \<Rightarrow> Some m
               | Some r \<Rightarrow> Some (Matrix (ncols r) (rows r @ rows m))))" for k
  proof (cases "k = model")
    case True
    with nm mm[of k] m1[of k] show ?thesis
      by (simp add: p v_def split: option.splits)
  next
    case False
    with mm[of k] m1[of k] show ?thesis
      by (simp add: p split: option.splits)
  qed
  ultimately show ?case using step r by simp
qed


text \<open>The loop over the files keeps \<open>concat_inv\<close>.\<close>

lemma file_blocks_snoc:
  "file_blocks errors (done @ [f]) k =
     file_blocks errors done k @
       (case map_of errors f of None \<Rightarrow> [] | Some e \<Rightarrow> (case map_of e k of None \<Rightarrow> [] | Some m \<Rightarrow> [m]))"
  by (simp add: file_blocks_def List.map_filter_def split: option.splits)

lemma vstack_snoc: "vstack w (bs @ [m]) = Matrix w (rows (vstack w bs) @ rows m)"
  by (simp add: vstack_def)

lemma vstack_single: "ncols m = w \<Longrightarrow> vstack w [m] = m"
  by (cases m) (simp add: vstack_def)

lemma concat_files_spec:
  assumes "set files \<subseteq> fst ` set errors"
    and "\<forall>f e. map_of errors f = Some e \<longrightarrow> distinct (map fst e)"
    and "\<forall>f e k m. map_of errors f = Some e \<longrightarrow> map_of e k = Some m \<longrightarrow> ncols m = w"
    and "concat_inv errors w done res"
  shows "\<exists>res'. concat_files errors files res = Inr res' \<and> concat_inv errors w (done @ files) res'"
  using assms(1,4)
proof (induction files arbitrary: res "done")
  case Nil
  then show ?case by simp
next
  case (Cons f rest)
  from Cons.prems(1) obtain e where e: "map_of errors f = Some e"
    by (cases "map_of errors f") (auto simp: map_of_eq_None_iff)
  from assms(2) e have de: "distinct (map fst e)" by blast
  from assms(3) e have we: "\<forall>k m. map_of e k = Some m \<longrightarrow> ncols m = w" by blast
  from Cons.prems(2) have dr: "distinct (map fst res)" and
    mr: "\<And>k. map_of res k =
        (if file_blocks errors done k = [] then None
         else Some (vstack w (file_blocks errors done k)))"
    by (simp_all add: concat_inv_def)
  have wr: "ncols r = w" if "map_of res k = Some r" for k r
    using that mr[of k] by (auto simp: vstack_def split: if_splits)
  from we wr have "\<forall>k m r. map_of e k = Some m \<longrightarrow> map_of res k = Some r \<longrightarrow> ncols r = ncols m"
    by simp
  from add_models_spec[OF de this] dr obtain res1 where
    a: "add_models e res = Inr res1" and d1: "distinct (map fst res1)" and
    m1: "\<And>k. map_of res1 k =
         (case map_of e k of
            None \<Rightarrow> map_of res k
          | Some m \<Rightarrow>
              (case map_of res k of
                 None \<Rightarrow> Some m
               | Some r \<Rightarrow> Some (Matrix (ncols r) (rows r @ rows m))))"
    by blast
  have "map_of res1 k =
        (if file_blocks errors (done @ [f]) k = [] then None
         else Some (vstack w (file_blocks errors (done @ [f]) k)))" for k
  proof (cases "map_of e k")
    case None
    then show ?thesis using m1[of k] mr[of k] e by (simp add: file_blocks_snoc)
  next
    case (Some m)
    with we have "ncols m = w" by blast
    then show ?thesis using m1[of k] mr[of k] e Some
      by (auto simp: file_blocks_snoc vstack_snoc vstack_single[unfolded vstack_def] vstack_def)
  qed
  with d1 have "concat_inv errors w (done @ [f]) res1"
    by (simp add: concat_inv_def)
  from Cons.IH[OF _ this] Cons.prems(1) obtain res' where
    "concat_files errors rest res1 = Inr res'" "concat_inv errors w ((done @ [f]) @ rest) res'"
    by auto
  with e a show ?case by simp
qed


lemma mset_file_blocks:
  "mset files' = mset files \<Longrightarrow> mset (file_blocks errors files' k) = mset (file_blocks errors files k)"
proof -
  assume p: "mset files' = mset files"
  have "mset (List.map_filter g files') = mset (List.map_filter g files)" for g :: "string \<Rightarrow> matrix option"
  proof -
    have "mset (List.map_filter g xs) = image_mset (the \<circ> g) (filter_mset (\<lambda>x. g x \<noteq> None) (mset xs))" for xs
      by (simp add: List.map_filter_def)
    then show ?thesis by (simp only: p)
  qed
  then show ?thesis by (simp only: file_blocks_def)
qed

lemma concat_all_datafiles_spec:
  assumes "set files \<subseteq> fst ` set errors"
    and "\<forall>f e. map_of errors f = Some e \<longrightarrow> distinct (map fst e)"
    and "\<forall>f e k m. map_of errors f = Some e \<longrightarrow> map_of e k = Some m \<longrightarrow> ncols m = w"
  shows "\<exists>result. concat_all_datafiles errors files = Inr result \<and> concat_inv errors w files result"
proof -
  have "concat_inv errors w [] []"
    by (simp add: concat_inv_def file_blocks_def)
  from concat_files_spec[OF assms this] show ?thesis
    by (simp add: concat_all_datafiles_def)
qed

text \<open>
  Claim C7. Let every listed file be a key of \<^verbatim>\<open>errors\<close>, every dictionary of a file have
  distinct keys, and all matrices have the same width \<open>w\<close>. Then
  \<^verbatim>\<open>concat_all_datafiles\<close> returns a dictionary that holds, for each model that a listed
  file has, the vertical concatenation of the matrices of that model: the rows of each file
  in their order, the blocks of the files in the order in which the files are listed. This
  holds for every list of files, so also for a permutation of the list, whose blocks are
  the same ones in the permuted order.
\<close>

theorem concat_all_datafiles_blocks:
  assumes "set datafiles \<subseteq> fst ` set errors"
    and "\<forall>f e. map_of errors f = Some e \<longrightarrow> distinct (map fst e)"
    and "\<forall>f e k m. map_of errors f = Some e \<longrightarrow> map_of e k = Some m \<longrightarrow> ncols m = w"
  shows "(\<exists>result. concat_all_datafiles errors datafiles = Inr result \<and>
           distinct (map fst result) \<and>
           (\<forall>model. map_of result model =
              (if file_blocks errors datafiles model = [] then None
               else Some (Matrix w (concat (map rows (file_blocks errors datafiles model))))))) \<and>
         (\<forall>datafiles'. mset datafiles' = mset datafiles \<longrightarrow>
           (\<exists>result'. concat_all_datafiles errors datafiles' = Inr result' \<and>
              (\<forall>model. map_of result' model =
                 (if file_blocks errors datafiles' model = [] then None
                  else Some (Matrix w (concat (map rows (file_blocks errors datafiles' model))))) \<and>
                 mset (file_blocks errors datafiles' model) =
                 mset (file_blocks errors datafiles model))))"
proof (intro conjI allI impI)
  from concat_all_datafiles_spec[OF assms]
  show "\<exists>result. concat_all_datafiles errors datafiles = Inr result \<and>
           distinct (map fst result) \<and>
           (\<forall>model. map_of result model =
              (if file_blocks errors datafiles model = [] then None
               else Some (Matrix w (concat (map rows (file_blocks errors datafiles model))))))"
    by (auto simp: concat_inv_def vstack_def)
next
  fix datafiles' :: "string list"
  assume p: "mset datafiles' = mset datafiles"
  then have "set datafiles' = set datafiles" by (rule mset_eq_setD)
  with assms(1) have "set datafiles' \<subseteq> fst ` set errors" by simp
  from concat_all_datafiles_spec[OF this assms(2,3)] mset_file_blocks[OF p, of errors]
  show "\<exists>result'. concat_all_datafiles errors datafiles' = Inr result' \<and>
              (\<forall>model. map_of result' model =
                 (if file_blocks errors datafiles' model = [] then None
                  else Some (Matrix w (concat (map rows (file_blocks errors datafiles' model))))) \<and>
                 mset (file_blocks errors datafiles' model) =
                 mset (file_blocks errors datafiles model))"
    by (auto simp: concat_inv_def vstack_def)
qed

text \<open>
  Two files with one model: listed as \<open>a, b\<close> the rows of \<open>a\<close> come first, listed as
  \<open>b, a\<close> the rows of \<open>b\<close> do.
\<close>

theorem concat_all_datafiles_blocks_witness:
  "(\<exists>result. concat_all_datafiles
       [(''a.csv'', [(''lstm'', Matrix 2 [[1, 2]])]), (''b.csv'', [(''lstm'', Matrix 2 [[3, 4], [5, 6]])])]
       [''a.csv'', ''b.csv''] = Inr result \<and>
     map_of result ''lstm'' = Some (Matrix 2 [[1, 2], [3, 4], [5, 6]])) \<and>
   (\<exists>result'. concat_all_datafiles
       [(''a.csv'', [(''lstm'', Matrix 2 [[1, 2]])]), (''b.csv'', [(''lstm'', Matrix 2 [[3, 4], [5, 6]])])]
       [''b.csv'', ''a.csv''] = Inr result' \<and>
     map_of result' ''lstm'' = Some (Matrix 2 [[3, 4], [5, 6], [1, 2]]))"
proof -
  let ?errors = "[(''a.csv'', [(''lstm'', Matrix 2 [[1, 2]])]), (''b.csv'', [(''lstm'', Matrix 2 [[3, 4], [5, 6]])])]"
  have 1: "set [''a.csv'', ''b.csv''] \<subseteq> fst ` set ?errors" by simp
  have 2: "\<forall>f e. map_of ?errors f = Some e \<longrightarrow> distinct (map fst e)"
    by (auto split: if_splits)
  have 3: "\<forall>f e k m. map_of ?errors f = Some e \<longrightarrow> map_of e k = Some m \<longrightarrow> ncols m = 2"
    by (auto split: if_splits)
  have 4: "mset [''b.csv'', ''a.csv''] = mset [''a.csv'', ''b.csv'']" by simp
  have b1: "file_blocks ?errors [''a.csv'', ''b.csv''] ''lstm'' = [Matrix 2 [[1, 2]], Matrix 2 [[3, 4], [5, 6]]]"
    by (simp add: file_blocks_def)
  have b2: "file_blocks ?errors [''b.csv'', ''a.csv''] ''lstm'' = [Matrix 2 [[3, 4], [5, 6]], Matrix 2 [[1, 2]]]"
    by (simp add: file_blocks_def)
  from concat_all_datafiles_blocks [OF 1 2 3] obtain result where
    r: "concat_all_datafiles ?errors [''a.csv'', ''b.csv''] = Inr result"
       "\<forall>model. map_of result model =
              (if file_blocks ?errors [''a.csv'', ''b.csv''] model = [] then None
               else Some (Matrix 2 (concat (map rows (file_blocks ?errors [''a.csv'', ''b.csv''] model)))))"
    by blast
  from r(2) have r1: "map_of result ''lstm'' = Some (Matrix 2 [[1, 2], [3, 4], [5, 6]])"
    by (simp add: b1)
  from concat_all_datafiles_blocks [OF 1 2 3] 4 obtain result' where
    s: "concat_all_datafiles ?errors [''b.csv'', ''a.csv''] = Inr result'"
       "\<forall>model. map_of result' model =
              (if file_blocks ?errors [''b.csv'', ''a.csv''] model = [] then None
               else Some (Matrix 2 (concat (map rows (file_blocks ?errors [''b.csv'', ''a.csv''] model)))))"
    by blast
  from s(2) have s1: "map_of result' ''lstm'' = Some (Matrix 2 [[3, 4], [5, 6], [1, 2]])"
    by (simp add: b2)
  from r(1) r1 s(1) s1 show ?thesis by blast
qed

section \<open>Properties of \<^verbatim>\<open>normalize_data\<close>\<close>

text \<open>The folds of \<^verbatim>\<open>np.amax\<close> and \<^verbatim>\<open>np.min\<close> give the maximum and the minimum of a column.\<close>

lemma list_max_eq_Max: "xs \<noteq> [] \<Longrightarrow> list_max xs = Max (set xs)"
proof (cases xs)
  case Nil
  assume "xs \<noteq> []"
  with Nil show ?thesis by simp
next
  case (Cons a list)
  show ?thesis unfolding Cons by (simp only: list_max.simps Max.set_eq_fold)
qed

lemma list_min_eq_Min: "xs \<noteq> [] \<Longrightarrow> list_min xs = Min (set xs)"
proof (cases xs)
  case Nil
  assume "xs \<noteq> []"
  with Nil show ?thesis by simp
next
  case (Cons a list)
  show ?thesis unfolding Cons by (simp only: list_min.simps Min.set_eq_fold)
qed

lemma column_nonempty: "rows m \<noteq> [] \<Longrightarrow> column m j \<noteq> []"
  by (simp add: column_def)

lemma wf_matrix_row: "wf_matrix m \<Longrightarrow> i < length (rows m) \<Longrightarrow> length (rows m ! i) = ncols m"
  by (simp add: wf_matrix_def list_all_length)







section \<open>Properties of the arithmetic of \<^verbatim>\<open>float64\<close>\<close>

text \<open>
  Rounding to the nearest integer lies between the floor and the ceiling, keeps integers,
  is monotone and returns an integer that is less than one half away.
\<close>

lemma round_even_ge: "of_int n \<le> y \<Longrightarrow> n \<le> round_even y"
proof -
  assume "of_int n \<le> y"
  then have "n \<le> \<lfloor>y\<rfloor>" by (simp add: le_floor_iff)
  then show ?thesis by (simp add: round_even_def Let_def)
qed

lemma round_even_of_int: "round_even (of_int n) = n"
  by (simp add: round_even_def)

lemma round_even_le: "y \<le> of_int n \<Longrightarrow> round_even y \<le> n"
proof (cases "y = of_int n")
  case True
  then show ?thesis by (simp add: round_even_of_int)
next
  case False
  assume "y \<le> of_int n"
  with False have "y < of_int n" by simp
  then have "\<lfloor>y\<rfloor> < n" by (simp add: floor_less_iff)
  then show ?thesis by (simp add: round_even_def Let_def)
qed

lemma round_even_mono: "a \<le> b \<Longrightarrow> round_even a \<le> round_even b"
proof -
  assume ab: "a \<le> b"
  then have f: "\<lfloor>a\<rfloor> \<le> \<lfloor>b\<rfloor>" by (rule floor_mono)
  show ?thesis
  proof (cases "\<lfloor>a\<rfloor> = \<lfloor>b\<rfloor>")
    case True
    with ab show ?thesis by (auto simp: round_even_def Let_def)
  next
    case False
    with f have "\<lfloor>a\<rfloor> + 1 \<le> \<lfloor>b\<rfloor>" by simp
    moreover have "round_even a \<le> \<lfloor>a\<rfloor> + 1" by (simp add: round_even_def Let_def)
    moreover have "\<lfloor>b\<rfloor> \<le> round_even b" by (simp add: round_even_def Let_def)
    ultimately show ?thesis by linarith
  qed
qed

lemma round_even_nearest:
  assumes "of_int k - 1 / 2 < y" "y < of_int k + 1 / 2"
  shows "round_even y = k"
proof (cases "of_int k \<le> y")
  case True
  with assms(2) have "\<lfloor>y\<rfloor> = k" by (intro floor_unique) simp_all
  with assms(2) show ?thesis by (simp add: round_even_def)
next
  case False
  with assms(1) have "\<lfloor>y\<rfloor> = k - 1" by (intro floor_unique) simp_all
  with assms(1) show ?thesis by (simp add: round_even_def)
qed

text \<open>
  The exponent of the binade, and the exponent that \<open>round_f64\<close> works with, which is that
  of the binade or \<open>-1022\<close> for a subnormal number.
\<close>

lemma binade_bounds:
  assumes "0 < x"
  shows "2 powr of_int (binade x) \<le> x" "x < 2 powr (of_int (binade x) + 1)"
  using floor_log_eq_powr_iff[of x 2 "binade x"] assms by (simp_all add: binade_def)

lemma binade_eqI: "0 < x \<Longrightarrow> 2 powr of_int k \<le> x \<Longrightarrow> x < 2 powr (of_int k + 1) \<Longrightarrow> binade x = k"
  using floor_log_eq_powr_iff[of x 2 k] by (simp add: binade_def)

lemma binade_mono: "0 < x \<Longrightarrow> x \<le> y \<Longrightarrow> binade x \<le> binade y"
  unfolding binade_def by (intro floor_mono) (simp add: log_mono)

lemma f64_exponent_ge: "- 1022 \<le> f64_exponent x" "binade x \<le> f64_exponent x"
  by (simp_all add: f64_exponent_def)

lemma f64_exponent_mono: "0 < x \<Longrightarrow> x \<le> y \<Longrightarrow> f64_exponent x \<le> f64_exponent y"
  using binade_mono[of x y] by (simp add: f64_exponent_def)

lemma f64_exponent_normal: "- 1022 \<le> binade x \<Longrightarrow> f64_exponent x = binade x"
  by (simp add: f64_exponent_def)

lemma powr_unit_mult:
  "2 powr (of_int e - 52) * 2 ^ 52 = (2::real) powr of_int e"
  "2 powr (of_int e - 52) * 2 ^ 53 = (2::real) powr (of_int e + 1)"
proof -
  have "2 powr (of_int e - 52) * 2 powr 52 = (2::real) powr of_int e"
    "2 powr (of_int e - 52) * 2 powr 53 = (2::real) powr (of_int e + 1)"
    unfolding powr_add[symmetric] by (simp_all add: add.commute)
  then show "2 powr (of_int e - 52) * 2 ^ 52 = (2::real) powr of_int e"
    "2 powr (of_int e - 52) * 2 ^ 53 = (2::real) powr (of_int e + 1)"
    by simp_all
qed

text \<open>
  The significand of the rounded number is at most \<open>2^53\<close>, and at least \<open>2^52\<close> for a
  number that is not subnormal.
\<close>

lemma scaled_upper:
  assumes "0 < x"
  shows "x / 2 powr (of_int (f64_exponent x) - 52) < 2 ^ 53"
proof -
  let ?e = "of_int (f64_exponent x) :: real"
  have u: "0 < 2 powr (?e - 52)" by simp
  have "of_int (binade x) + 1 \<le> ?e + 1" using f64_exponent_ge(2)[of x] by simp
  then have "(2::real) powr (of_int (binade x) + 1) \<le> 2 powr (?e + 1)"
    by (intro powr_mono) simp_all
  with binade_bounds(2)[OF assms] have "x < 2 powr (?e + 1)" by linarith
  with powr_unit_mult(2)[of "f64_exponent x"] u show ?thesis
    by (simp add: pos_divide_less_eq mult.commute)
qed

lemma scaled_lower:
  assumes "0 < x" "- 1022 \<le> binade x"
  shows "2 ^ 52 \<le> x / 2 powr (of_int (f64_exponent x) - 52)"
proof -
  let ?e = "of_int (f64_exponent x) :: real"
  have u: "0 < 2 powr (?e - 52)" by simp
  from binade_bounds(1)[OF assms(1)] f64_exponent_normal[OF assms(2)]
  have "2 powr ?e \<le> x" by simp
  with powr_unit_mult(1)[of "f64_exponent x"] u show ?thesis
    by (simp add: pos_le_divide_eq mult.commute)
qed

lemma round_f64_unfold:
  "x \<noteq> 0 \<Longrightarrow> round_f64 x = 2 powr (of_int (f64_exponent x) - 52) *
     of_int (round_even (x / 2 powr (of_int (f64_exponent x) - 52)))"
  by (simp add: round_f64_def)

lemma significand_bounds:
  assumes "0 < x"
  shows "0 \<le> round_even (x / 2 powr (of_int (f64_exponent x) - 52))"
    "round_even (x / 2 powr (of_int (f64_exponent x) - 52)) \<le> 2 ^ 53"
    "- 1022 \<le> binade x \<Longrightarrow> 2 ^ 52 \<le> round_even (x / 2 powr (of_int (f64_exponent x) - 52))"
proof -
  let ?y = "x / 2 powr (of_int (f64_exponent x) - 52)"
  have "of_int 0 \<le> ?y" using assms by simp
  then show "0 \<le> round_even ?y" by (rule round_even_ge)
  have "(2::real) ^ 53 = of_int (2 ^ 53)" by simp
  with scaled_upper[OF assms] have "?y \<le> of_int (2 ^ 53)" by linarith
  then show "round_even ?y \<le> 2 ^ 53" by (rule round_even_le)
  assume "- 1022 \<le> binade x"
  from scaled_lower[OF assms this] have "of_int (2 ^ 52) \<le> ?y" by simp
  then show "2 ^ 52 \<le> round_even ?y" by (rule round_even_ge)
qed

lemma round_f64_upper:
  assumes "0 < x"
  shows "round_f64 x \<le> 2 powr (of_int (f64_exponent x) + 1)"
proof -
  let ?u = "2 powr (of_int (f64_exponent x) - 52) :: real"
  let ?k = "round_even (x / ?u)"
  from significand_bounds(2)[OF assms] have "of_int ?k \<le> (of_int (2 ^ 53) :: real)"
    by (simp only: of_int_le_iff)
  then have "of_int ?k \<le> (2::real) ^ 53" by simp
  then have "?u * of_int ?k \<le> ?u * 2 ^ 53" by (intro mult_left_mono) simp_all
  with powr_unit_mult(2)[of "f64_exponent x"] round_f64_unfold[of x] assms show ?thesis by simp
qed

lemma round_f64_lower:
  assumes "0 < x" "- 1022 \<le> binade x"
  shows "2 powr of_int (binade x) \<le> round_f64 x"
proof -
  let ?u = "2 powr (of_int (f64_exponent x) - 52) :: real"
  let ?k = "round_even (x / ?u)"
  from significand_bounds(3)[OF assms] have "(of_int (2 ^ 52) :: real) \<le> of_int ?k"
    by (simp only: of_int_le_iff)
  then have "(2::real) ^ 52 \<le> of_int ?k" by simp
  then have "?u * 2 ^ 52 \<le> ?u * of_int ?k" by (intro mult_left_mono) simp_all
  with powr_unit_mult(1)[of "f64_exponent x"] round_f64_unfold[of x] assms
    f64_exponent_normal[OF assms(2)] show ?thesis by simp
qed

text \<open>
  Rounding to \<^verbatim>\<open>float64\<close> keeps zero and the sign, is monotone on the non-negative numbers,
  and keeps every number \<open>k * 2^(e-52)\<close> with \<open>0 \<le> k \<le> 2^53\<close> and \<open>e \<ge> -1022\<close>: one, the
  natural numbers up to \<open>2^53\<close>, and every number that it returns.
\<close>

lemma round_f64_0: "round_f64 0 = 0"
  by (simp add: round_f64_def)

lemma round_f64_nonneg: "0 \<le> x \<Longrightarrow> 0 \<le> round_f64 x"
proof (cases "x = 0")
  case True
  then show ?thesis by (simp add: round_f64_0)
next
  case False
  assume "0 \<le> x"
  with False have x: "0 < x" by simp
  from significand_bounds(1)[OF x] round_f64_unfold[OF False] show ?thesis by simp
qed

lemma round_f64_mono:
  assumes "0 \<le> x" "x \<le> y"
  shows "round_f64 x \<le> round_f64 y"
proof (cases "x = 0")
  case True
  with assms round_f64_nonneg[of y] show ?thesis by (simp add: round_f64_0)
next
  case False
  with assms have x: "0 < x" and y: "0 < y" by simp_all
  from f64_exponent_mono[OF x assms(2)] have b: "f64_exponent x \<le> f64_exponent y" .
  show ?thesis
  proof (cases "f64_exponent x = f64_exponent y")
    case True
    let ?u = "2 powr (of_int (f64_exponent y) - 52) :: real"
    have "x / ?u \<le> y / ?u" using assms(2) by (simp add: divide_right_mono)
    then have "round_even (x / ?u) \<le> round_even (y / ?u)" by (rule round_even_mono)
    then have "?u * of_int (round_even (x / ?u)) \<le> ?u * of_int (round_even (y / ?u))"
      by (intro mult_left_mono) simp_all
    with x y True show ?thesis by (simp add: round_f64_def)
  next
    case False
    with b have lt: "f64_exponent x < f64_exponent y" by simp
    with f64_exponent_ge(1)[of x] have n: "- 1022 \<le> binade y" "f64_exponent y = binade y"
      by (simp_all add: f64_exponent_def max_def split: if_splits)
    from lt n have "of_int (f64_exponent x) + 1 \<le> (of_int (binade y) :: real)" by linarith
    then have "(2::real) powr (of_int (f64_exponent x) + 1) \<le> 2 powr of_int (binade y)"
      by (intro powr_mono) simp_all
    with round_f64_upper[OF x] round_f64_lower[OF y n(1)] show ?thesis by linarith
  qed
qed

lemma round_f64_nearest:
  assumes "0 < x" "2 powr of_int e \<le> x" "x < 2 powr (of_int e + 1)" "- 1022 \<le> e"
    and "of_int k - 1 / 2 < x / 2 powr (of_int e - 52)" "x / 2 powr (of_int e - 52) < of_int k + 1 / 2"
  shows "round_f64 x = 2 powr (of_int e - 52) * of_int k"
proof -
  from assms(1-3) have "binade x = e" by (rule binade_eqI)
  with assms(4) have "f64_exponent x = e" by (simp add: f64_exponent_def)
  with assms(1) round_even_nearest[OF assms(5,6)] show ?thesis
    by (simp add: round_f64_def)
qed

lemma round_f64_exact_less:
  assumes "- 1022 \<le> e" "0 \<le> k" "k < 2 ^ 53"
  shows "round_f64 (2 powr (of_int e - 52) * of_int k) = 2 powr (of_int e - 52) * of_int k"
proof (cases "k = 0")
  case True
  then show ?thesis by (simp add: round_f64_0)
next
  case False
  with assms(2) have k0: "0 < k" by simp
  let ?u = "2 powr (of_int e - 52) :: real"
  let ?v = "?u * of_int k"
  have v: "0 < ?v" using k0 by simp
  from assms(3) have "(of_int k :: real) < of_int (2 ^ 53)" by (simp only: of_int_less_iff)
  then have "(of_int k :: real) < 2 ^ 53" by simp
  then have "?v < ?u * 2 ^ 53" by (intro mult_strict_left_mono) simp_all
  with powr_unit_mult(2)[of e] have hi: "?v < 2 powr (of_int e + 1)" by simp
  with binade_bounds(1)[OF v] have "(2::real) powr of_int (binade ?v) < 2 powr (of_int e + 1)"
    by linarith
  then have "of_int (binade ?v) < (of_int e + 1 :: real)" by simp
  then have be: "binade ?v \<le> e" by linarith
  let ?e' = "f64_exponent ?v"
  from be assms(1) have e': "?e' \<le> e" by (simp add: f64_exponent_def)
  define d where "d = nat (e - ?e')"
  from e' have d: "of_int e - of_int ?e' = (real d)" by (simp add: d_def)
  have "?u = 2 powr (of_int ?e' - 52) * 2 powr (of_int e - of_int ?e')"
    unfolding powr_add[symmetric] by simp
  also have "(2::real) powr (of_int e - of_int ?e') = 2 ^ d"
    unfolding d by (simp add: powr_realpow)
  finally have u: "?u = 2 powr (of_int ?e' - 52) * 2 ^ d" .
  have "?v / 2 powr (of_int ?e' - 52) = 2 ^ d * of_int k"
    by (subst u) simp
  also have "\<dots> = of_int (2 ^ d * k)" by simp
  finally have "round_even (?v / 2 powr (of_int ?e' - 52)) = 2 ^ d * k"
    by (simp only: round_even_of_int)
  with v have "round_f64 ?v = 2 powr (of_int ?e' - 52) * of_int (2 ^ d * k)"
    by (simp add: round_f64_def)
  also have "\<dots> = ?v" by (subst (2) u) simp
  finally show ?thesis .
qed

lemma round_f64_exact:
  assumes "- 1022 \<le> e" "0 \<le> k" "k \<le> 2 ^ 53"
  shows "round_f64 (2 powr (of_int e - 52) * of_int k) = 2 powr (of_int e - 52) * of_int k"
proof (cases "k = 2 ^ 53")
  case False
  with assms(3) have "k < 2 ^ 53" by simp
  with assms(1,2) show ?thesis by (rule round_f64_exact_less)
next
  case True
  have "(2::real) powr (of_int e - 52) * 2 powr 53 = 2 powr (of_int (e + 1) - 52) * 2 powr 52"
    unfolding powr_add[symmetric] by simp
  then have eq: "(2::real) powr (of_int e - 52) * of_int (2 ^ 53) = 2 powr (of_int (e + 1) - 52) * of_int (2 ^ 52)"
    by simp
  have "round_f64 (2 powr (of_int (e + 1) - 52) * of_int (2 ^ 52)) =
          2 powr (of_int (e + 1) - 52) * of_int (2 ^ 52)"
    using assms(1) by (intro round_f64_exact_less) simp_all
  with eq True show ?thesis by (simp only:)
qed

lemma round_f64_idem:
  assumes "0 \<le> x"
  shows "round_f64 (round_f64 x) = round_f64 x"
proof (cases "x = 0")
  case True
  then show ?thesis by (simp add: round_f64_0)
next
  case False
  with assms have x: "0 < x" by simp
  from round_f64_exact[OF f64_exponent_ge(1) significand_bounds(1,2)[OF x]]
  show ?thesis by (simp only: round_f64_unfold[OF False])
qed

lemma round_f64_1: "round_f64 1 = 1"
proof -
  have "round_f64 (2 powr (of_int 0 - 52) * of_int (2 ^ 52)) = 2 powr (of_int 0 - 52) * of_int (2 ^ 52)"
    by (rule round_f64_exact) simp_all
  moreover have "2 powr (of_int 0 - 52) * of_int (2 ^ 52) = (1::real)"
    by (simp add: powr_minus)
  ultimately show ?thesis by (simp only:)
qed

lemma round_f64_of_nat:
  assumes "n \<le> 2 ^ 53"
  shows "round_f64 (real n) = real n"
proof -
  have "round_f64 (2 powr (of_int 52 - 52) * of_int (int n)) = 2 powr (of_int 52 - 52) * of_int (int n)"
    using assms by (intro round_f64_exact) (simp_all add: le_nat_iff nat_le_iff)
  then show ?thesis by simp
qed

text \<open>Rounding commutes with negation.\<close>

lemma round_even_minus: "round_even (- y) = - round_even y"
proof (cases "y = of_int \<lfloor>y\<rfloor>")
  case True
  then have "- y = of_int (- \<lfloor>y\<rfloor>)" by simp
  then have "round_even (- y) = - \<lfloor>y\<rfloor>" by (simp only: round_even_of_int)
  moreover from True have "round_even y = \<lfloor>y\<rfloor>" by (metis round_even_of_int)
  ultimately show ?thesis by simp
next
  case False
  then have f: "\<lfloor>- y\<rfloor> = - \<lfloor>y\<rfloor> - 1"
    by (intro floor_unique) linarith+
  show ?thesis
    unfolding round_even_def Let_def f using False
    by (auto simp: algebra_simps)
qed

lemma binade_minus: "binade (- x) = binade x"
  by (simp add: binade_def)

lemma round_f64_minus: "round_f64 (- x) = - round_f64 x"
  by (simp add: round_f64_def f64_exponent_def binade_minus round_even_minus)

text \<open>
  Overflow: an exact result below \<open>2^1024 - 2^970\<close> in magnitude rounds to a finite number,
  at most \<open>2^1024 - 2^971\<close> in magnitude; the number \<open>2^1024 - 2^970\<close>, half way between the
  greatest finite number and \<open>2^1024\<close>, rounds to \<open>2^1024\<close>, and so does every result from
  there on: these results are \<^verbatim>\<open>inf\<close>.
\<close>

lemma round_f64_max: "round_f64 (2 ^ 1024 - 2 ^ 971) = 2 ^ 1024 - 2 ^ 971"
proof -
  have "round_f64 (2 powr (of_int 1023 - 52) * of_int (2 ^ 53 - 1)) =
        2 powr (of_int 1023 - 52) * of_int (2 ^ 53 - 1)"
    by (rule round_f64_exact) simp_all
  moreover have "2 powr (of_int 1023 - 52) * of_int (2 ^ 53 - 1) = (2 ^ 1024 - 2 ^ 971 :: real)"
    by simp
  ultimately show ?thesis by (simp only:)
qed

lemma round_f64_below_overflow:
  assumes "0 \<le> y" "y < 2 ^ 1024 - 2 ^ 970"
  shows "round_f64 y \<le> 2 ^ 1024 - 2 ^ 971"
proof (cases "y \<le> 2 ^ 1024 - 2 ^ 971")
  case True
  from round_f64_mono[OF assms(1) True] show ?thesis by (simp only: round_f64_max)
next
  case False
  then have y: "2 ^ 1024 - 2 ^ 971 < y" by simp
  have "round_f64 y = 2 powr (of_int 1023 - 52) * of_int (2 ^ 53 - 1)"
  proof (rule round_f64_nearest)
    from y show "0 < y" by simp
    from y show "2 powr of_int 1023 \<le> y" by simp
    from assms(2) show "y < 2 powr (of_int 1023 + 1)" by simp
    show "- 1022 \<le> (1023::int)" by simp
    from y show "of_int (2 ^ 53 - 1) - 1 / 2 < y / 2 powr (of_int 1023 - 52)"
      by (simp add: pos_less_divide_eq)
    from assms(2) show "y / 2 powr (of_int 1023 - 52) < of_int (2 ^ 53 - 1) + 1 / 2"
      by (simp add: pos_divide_less_eq)
  qed
  then show ?thesis by simp
qed

lemma round_f64_tie_overflow: "round_f64 (2 ^ 1024 - 2 ^ 970) = 2 ^ 1024"
proof -
  let ?y = "2 ^ 1024 - 2 ^ 970 :: real"
  have b: "binade ?y = 1023"
    by (rule binade_eqI) simp_all
  then have e: "f64_exponent ?y = 1023" by (simp add: f64_exponent_def)
  have s: "?y / 2 powr (of_int 1023 - 52) = of_int (2 ^ 53 - 1) + 1 / 2"
    by simp
  have "\<lfloor>of_int (2 ^ 53 - 1) + (1 / 2 :: real)\<rfloor> = 2 ^ 53 - 1"
    by (intro floor_unique) simp_all
  then have "round_even (of_int (2 ^ 53 - 1) + (1 / 2 :: real)) = 2 ^ 53"
    by (simp add: round_even_def)
  with e s have "round_f64 ?y = 2 powr (of_int 1023 - 52) * of_int (2 ^ 53)"
    by (simp add: round_f64_def)
  then show ?thesis by simp
qed

lemma round_f64_overflow:
  assumes "2 ^ 1024 - 2 ^ 970 \<le> y"
  shows "2 ^ 1024 \<le> round_f64 y"
proof -
  have "round_f64 (2 ^ 1024 - 2 ^ 970) \<le> round_f64 y"
    using assms by (intro round_f64_mono) simp_all
  then show ?thesis by (simp only: round_f64_tie_overflow)
qed

lemma f64_of_real_finite:
  assumes "\<bar>y\<bar> < 2 ^ 1024 - 2 ^ 970"
  shows "f64_of_real y = Finite (round_f64 y)" "\<bar>round_f64 y\<bar> \<le> 2 ^ 1024 - 2 ^ 971"
proof -
  have a: "\<bar>round_f64 y\<bar> \<le> 2 ^ 1024 - 2 ^ 971"
  proof (cases "0 \<le> y")
    case True
    with assms round_f64_below_overflow[of y] round_f64_nonneg[of y] show ?thesis by simp
  next
    case False
    with assms round_f64_below_overflow[of "- y"] round_f64_nonneg[of "- y"] show ?thesis
      by (simp add: round_f64_minus)
  qed
  then show "\<bar>round_f64 y\<bar> \<le> 2 ^ 1024 - 2 ^ 971" .
  from a have "\<not> 2 ^ 1024 \<le> round_f64 y" "\<not> round_f64 y \<le> - (2 ^ 1024)" by simp_all
  then show "f64_of_real y = Finite (round_f64 y)"
    by (simp add: f64_of_real_def Let_def)
qed

lemma f64_of_real_overflow:
  assumes "2 ^ 1024 - 2 ^ 970 \<le> y"
  shows "f64_of_real y = PosInf"
  using round_f64_overflow[OF assms] by (simp add: f64_of_real_def Let_def)

text \<open>
  The double of the literal \<^verbatim>\<open>1E-5\<close>, and what the addition of it to \<open>10^12\<close> rounds to:
  the spacing of the doubles near \<open>10^12\<close> is \<open>2^-13\<close>, more than twice \<open>1e-5\<close>.
\<close>

lemma round_f64_eps: "round_f64 (1 / 100000) = 5902958103587057 / 590295810358705651712"
proof -
  have "round_f64 (1 / 100000) = 2 powr (of_int (- 17) - 52) * of_int 5902958103587057"
    by (rule round_f64_nearest) (simp_all add: powr_minus)
  also have "\<dots> = 5902958103587057 / 590295810358705651712"
    by (simp add: powr_minus divide_simps)
  finally show ?thesis .
qed

lemma round_f64_1e12: "round_f64 1000000000000 = 1000000000000"
proof -
  have "round_f64 1000000000000 = 2 powr (of_int 39 - 52) * of_int 8192000000000000"
    by (rule round_f64_nearest) (simp_all add: powr_minus)
  also have "\<dots> = 1000000000000"
    by (simp add: powr_minus)
  finally show ?thesis .
qed

lemma round_f64_absorbs_eps:
  "round_f64 (1000000000000 + 5902958103587057 / 590295810358705651712) = 1000000000000"
proof -
  have "round_f64 (1000000000000 + 5902958103587057 / 590295810358705651712) =
        2 powr (of_int 39 - 52) * of_int 8192000000000000"
    by (rule round_f64_nearest) (simp_all add: powr_minus)
  also have "\<dots> = 1000000000000"
    by (simp add: powr_minus)
  finally show ?thesis .
qed

section \<open>Properties of \<^verbatim>\<open>normalize_error\<close>\<close>

text \<open>
  The \<^verbatim>\<open>float64\<close> of an exact result below the overflow threshold, and the operations on
  finite values.
\<close>

lemma f64_of_real_eqI: "round_f64 y = r \<Longrightarrow> \<bar>r\<bar> < 2 ^ 1024 \<Longrightarrow> f64_of_real y = Finite r"
  by (auto simp: f64_of_real_def Let_def)

lemma f64_of_real_0: "f64_of_real 0 = Finite 0"
  by (rule f64_of_real_eqI) (simp_all add: round_f64_0)

lemma f64_of_real_1: "f64_of_real 1 = Finite 1"
  by (rule f64_of_real_eqI) (simp_all add: round_f64_1)

lemma f64_sub_Finite: "f64_sub (Finite a) (Finite b) = f64_of_real (a - b)"
  by (simp add: f64_sub_def)

lemma f64_of_real_nat:
  assumes "n \<le> 2 ^ 53"
  shows "f64_of_real (real n) = Finite (real n)"
proof (rule f64_of_real_eqI)
  show "round_f64 (real n) = real n" using assms by (rule round_f64_of_nat)
  from assms have "real n \<le> real (2 ^ 53)" by (simp only: of_nat_le_iff)
  then show "\<bar>real n\<bar> < 2 ^ 1024" by simp
qed

text \<open>
  The double of the literal \<^verbatim>\<open>1E-5\<close> is positive and small.
\<close>

lemma f64_of_real_eps: "f64_of_real eps = Finite (5902958103587057 / 590295810358705651712)"
  by (rule f64_of_real_eqI) (simp_all add: eps_def round_f64_eps)

text \<open>The entries of the result.\<close>

lemma column_nth: "i < length (rows m) \<Longrightarrow> column m j ! i = rows m ! i ! j"
  by (simp add: column_def)

lemma column_entry_bounds:
  assumes "i < length (rows m)"
  shows "Min (set (column m j)) \<le> rows m ! i ! j" "rows m ! i ! j \<le> Max (set (column m j))"
proof -
  from assms have "rows m ! i ! j \<in> set (column m j)"
    by (metis column_nth length_map column_def nth_mem)
  then show "Min (set (column m j)) \<le> rows m ! i ! j" "rows m ! i ! j \<le> Max (set (column m j))"
    by simp_all
qed

lemma normalize_error_entry:
  assumes "wf_matrix data" "rows data \<noteq> []"
  shows "\<exists>norm. normalize_error data = Inr norm \<and> wf_matrix norm \<and>
     ncols norm = ncols data \<and> length (rows norm) = length (rows data) \<and>
     (\<forall>i<length (rows data). \<forall>j<ncols data.
        rows norm ! i ! j =
          f64_div (f64_sub (Finite (rows data ! i ! j)) (Finite (Min (set (column data j)))))
            (f64_add (f64_sub (Finite (Max (set (column data j)))) (Finite (Min (set (column data j)))))
               (f64_of_real eps)))"
proof -
  let ?mn = "map (\<lambda>j. list_min (column data j)) [0..<ncols data]"
  let ?mx = "map (\<lambda>j. list_max (column data j)) [0..<ncols data]"
  let ?den = "map (\<lambda>d. f64_add d (f64_of_real eps)) (map2 (\<lambda>x y. f64_sub (Finite x) (Finite y)) ?mx ?mn)"
  let ?norm = "Matrix (ncols data)
     (map (\<lambda>r. map2 f64_div (map2 (\<lambda>x y. f64_sub (Finite x) (Finite y)) r ?mn) ?den) (rows data))"
  have a: "amax0 data = Inr ?mx" "amin0 data = Inr ?mn"
    using assms(2) by (simp_all add: amax0_def amin0_def)
  have v: "normalize_error data = Inr ?norm"
    unfolding normalize_error_def a and_then_Inr
    by (simp add: broadcast_rows_def comp_def)
  have s: "wf_matrix ?norm" "ncols ?norm = ncols data" "length (rows ?norm) = length (rows data)"
    using assms(1) by (auto simp: wf_matrix_def list_all_iff)
  have e: "rows ?norm ! i ! j =
          f64_div (f64_sub (Finite (rows data ! i ! j)) (Finite (Min (set (column data j)))))
            (f64_add (f64_sub (Finite (Max (set (column data j)))) (Finite (Min (set (column data j)))))
               (f64_of_real eps))"
    if "i < length (rows data)" "j < ncols data" for i j
    using that wf_matrix_row[OF assms(1) that(1)] column_nonempty[OF assms(2), of j]
    by (simp add: list_max_eq_Max list_min_eq_Min)
  from v s e show ?thesis by blast
qed

lemma normalize_error_exact_entry:
  assumes "wf_matrix data" "rows data \<noteq> []"
  shows "\<exists>norm. normalize_error_exact data = Inr norm \<and> wf_matrix norm \<and>
     ncols norm = ncols data \<and> length (rows norm) = length (rows data) \<and>
     (\<forall>i<length (rows data). \<forall>j<ncols data.
        rows norm ! i ! j =
          (rows data ! i ! j - Min (set (column data j))) /
          (Max (set (column data j)) - Min (set (column data j)) + eps))"
proof -
  let ?mn = "map (\<lambda>j. list_min (column data j)) [0..<ncols data]"
  let ?mx = "map (\<lambda>j. list_max (column data j)) [0..<ncols data]"
  let ?den = "map (\<lambda>d. d + eps) (map2 (-) ?mx ?mn)"
  let ?norm = "Matrix (ncols data) (map (\<lambda>r. map2 (/) (map2 (-) r ?mn) ?den) (rows data))"
  have a: "amax0 data = Inr ?mx" "amin0 data = Inr ?mn"
    using assms(2) by (simp_all add: amax0_def amin0_def)
  have v: "normalize_error_exact data = Inr ?norm"
    unfolding normalize_error_exact_def a and_then_Inr
    by (simp add: broadcast_rows_def comp_def)
  have s: "wf_matrix ?norm" "ncols ?norm = ncols data" "length (rows ?norm) = length (rows data)"
    using assms(1) by (auto simp: wf_matrix_def list_all_iff)
  have e: "rows ?norm ! i ! j =
          (rows data ! i ! j - Min (set (column data j))) /
          (Max (set (column data j)) - Min (set (column data j)) + eps)"
    if "i < length (rows data)" "j < ncols data" for i j
    using that wf_matrix_row[OF assms(1) that(1)] column_nonempty[OF assms(2), of j]
    by (simp add: list_max_eq_Max list_min_eq_Min)
  from v s e show ?thesis by blast
qed

text \<open>
  One entry, when the difference \<open>max - min\<close> of its column does not overflow: the divisor
  is finite and positive, and the quotient is finite and lies between \<open>0\<close> and \<open>1\<close>.
\<close>

lemma f64_quotient_range:
  assumes "mn \<le> x" "x \<le> mx" "mx - mn < 2 ^ 1024 - 2 ^ 970"
  shows "\<exists>q d. f64_add (f64_sub (Finite mx) (Finite mn)) (f64_of_real eps) = Finite d \<and> 0 < d \<and>
     f64_div (f64_sub (Finite x) (Finite mn))
       (f64_add (f64_sub (Finite mx) (Finite mn)) (f64_of_real eps)) = Finite q \<and>
     0 \<le> q \<and> q \<le> 1 \<and> (mx = mn \<longrightarrow> q = 0)"
proof -
  let ?E = "5902958103587057 / 590295810358705651712 :: real"
  let ?D = "round_f64 (mx - mn)" and ?N = "round_f64 (x - mn)"
  let ?d = "round_f64 (?D + ?E)"
  let ?q = "round_f64 (?N / ?d)"
  from assms have a: "\<bar>mx - mn\<bar> < 2 ^ 1024 - 2 ^ 970" "\<bar>x - mn\<bar> < 2 ^ 1024 - 2 ^ 970"
    by simp_all
  note D = f64_of_real_finite[OF a(1)] and N = f64_of_real_finite[OF a(2)]
  have N0: "0 \<le> ?N" using assms(1) by (intro round_f64_nonneg) simp
  have ND: "?N \<le> ?D" using assms(1,2) by (intro round_f64_mono) simp_all
  from N0 ND have D0: "0 \<le> ?D" by simp
  have E: "round_f64 ?E = ?E"
    using round_f64_idem[of "1 / 100000"] by (simp add: round_f64_eps)
  from D(2) D0 have "\<bar>?D + ?E\<bar> < 2 ^ 1024 - 2 ^ 970" by simp
  note d = f64_of_real_finite[OF this]
  have "round_f64 ?E \<le> ?d" using D0 by (intro round_f64_mono) simp_all
  with E have d0: "0 < ?d" by simp
  have "round_f64 ?D \<le> ?d" using D0 by (intro round_f64_mono) simp_all
  moreover have "round_f64 ?D = ?D" using assms(1,2) by (intro round_f64_idem) simp
  ultimately have Nd: "?N \<le> ?d" using ND by simp
  with d0 N0 have q: "0 \<le> ?N / ?d" "?N / ?d \<le> 1"
    by (simp_all add: divide_le_eq_1)
  then have "\<bar>?N / ?d\<bar> < 2 ^ 1024 - 2 ^ 970" by simp
  note Q = f64_of_real_finite[OF this]
  have q0: "0 \<le> ?q" using q(1) by (rule round_f64_nonneg)
  have q1: "?q \<le> 1" using round_f64_mono[OF q] by (simp add: round_f64_1)
  have qz: "?q = 0" if "mx = mn"
  proof -
    from that assms(1,2) have "x - mn = 0" by simp
    then show ?thesis by (simp add: round_f64_0)
  qed
  have 1: "f64_add (f64_sub (Finite mx) (Finite mn)) (f64_of_real eps) = Finite ?d"
    by (simp add: f64_sub_Finite D(1) f64_of_real_eps d(1))
  have 2: "f64_div (f64_sub (Finite x) (Finite mn)) (Finite ?d) = Finite ?q"
    using d0 by (simp add: f64_sub_Finite N(1) Q(1))
  from 1 2 d0 q0 q1 qz show ?thesis by (simp only:) blast
qed

text \<open>
  One entry, when the difference \<open>max - min\<close> of its column overflows: the divisor is
  \<^verbatim>\<open>inf\<close>, and the entry is \<^verbatim>\<open>nan\<close> when its own numerator overflows and zero otherwise.
\<close>

lemma f64_quotient_overflow:
  assumes "mn \<le> x" "x \<le> mx" "2 ^ 1024 - 2 ^ 970 \<le> mx - mn"
  shows "f64_add (f64_sub (Finite mx) (Finite mn)) (f64_of_real eps) = PosInf"
    and "f64_div (f64_sub (Finite x) (Finite mn))
       (f64_add (f64_sub (Finite mx) (Finite mn)) (f64_of_real eps)) =
     (if 2 ^ 1024 - 2 ^ 970 \<le> x - mn then NaN else Finite 0)"
proof -
  show 1: "f64_add (f64_sub (Finite mx) (Finite mn)) (f64_of_real eps) = PosInf"
    by (simp add: f64_sub_Finite f64_of_real_overflow[OF assms(3)] f64_of_real_eps)
  show "f64_div (f64_sub (Finite x) (Finite mn))
       (f64_add (f64_sub (Finite mx) (Finite mn)) (f64_of_real eps)) =
     (if 2 ^ 1024 - 2 ^ 970 \<le> x - mn then NaN else Finite 0)"
  proof (cases "2 ^ 1024 - 2 ^ 970 \<le> x - mn")
    case True
    then show ?thesis unfolding 1 by (simp add: f64_sub_Finite f64_of_real_overflow)
  next
    case False
    with assms(1) have "\<bar>x - mn\<bar> < 2 ^ 1024 - 2 ^ 970" by simp
    from f64_of_real_finite(1)[OF this] False show ?thesis
      unfolding 1 by (simp add: f64_sub_Finite)
  qed
qed

text \<open>
  Claim C3, as amended. For every matrix of finite values with at least one row and every
  column of it: computed exactly, every entry of the normalized column is at least \<open>0\<close> and
  below \<open>1\<close>, the divisor \<open>max - min + \<epsilon>\<close> is positive, and the entries of a column whose
  entries are all equal are \<open>0\<close>. Computed in \<^verbatim>\<open>float64\<close>, as \<^verbatim>\<open>normalize_error\<close> does: when
  the subtraction \<open>max - min\<close> does not overflow, which is \<open>max - min < 2^1024 - 2^970\<close>, the
  divisor is finite and positive and every entry of the column is finite, at least \<open>0\<close> and
  at most \<open>1\<close>, and \<open>0\<close> when the entries of the column are all equal; when the
  subtraction overflows, the divisor is \<^verbatim>\<open>inf\<close> and an entry of the column is \<^verbatim>\<open>nan\<close> when
  its own numerator overflows and \<open>0\<close> otherwise.
\<close>

theorem normalize_error_range:
  assumes "wf_matrix data" and "rows data \<noteq> []"
  shows "\<exists>norm exact. normalize_error data = Inr norm \<and> normalize_error_exact data = Inr exact \<and>
     (\<forall>i<length (rows data). \<forall>j<ncols data.
        0 \<le> rows exact ! i ! j \<and> rows exact ! i ! j < 1 \<and>
        0 < Max (set (column data j)) - Min (set (column data j)) + eps \<and>
        (Max (set (column data j)) = Min (set (column data j)) \<longrightarrow> rows exact ! i ! j = 0) \<and>
        (Max (set (column data j)) - Min (set (column data j)) < 2 ^ 1024 - 2 ^ 970 \<longrightarrow>
           (\<exists>q d. rows norm ! i ! j = Finite q \<and> 0 \<le> q \<and> q \<le> 1 \<and>
              f64_add (f64_sub (Finite (Max (set (column data j)))) (Finite (Min (set (column data j)))))
                (f64_of_real eps) = Finite d \<and> 0 < d \<and>
              (Max (set (column data j)) = Min (set (column data j)) \<longrightarrow> q = 0))) \<and>
        (2 ^ 1024 - 2 ^ 970 \<le> Max (set (column data j)) - Min (set (column data j)) \<longrightarrow>
           f64_add (f64_sub (Finite (Max (set (column data j)))) (Finite (Min (set (column data j)))))
             (f64_of_real eps) = PosInf \<and>
           rows norm ! i ! j =
             (if 2 ^ 1024 - 2 ^ 970 \<le> rows data ! i ! j - Min (set (column data j))
              then NaN else Finite 0)))"
proof -
  from normalize_error_entry[OF assms] obtain norm where
    n: "normalize_error data = Inr norm" and
    ne: "\<And>i j. i < length (rows data) \<Longrightarrow> j < ncols data \<Longrightarrow>
        rows norm ! i ! j =
          f64_div (f64_sub (Finite (rows data ! i ! j)) (Finite (Min (set (column data j)))))
            (f64_add (f64_sub (Finite (Max (set (column data j)))) (Finite (Min (set (column data j)))))
               (f64_of_real eps))"
    by blast
  from normalize_error_exact_entry[OF assms] obtain exact where
    x: "normalize_error_exact data = Inr exact" and
    xe: "\<And>i j. i < length (rows data) \<Longrightarrow> j < ncols data \<Longrightarrow>
        rows exact ! i ! j =
          (rows data ! i ! j - Min (set (column data j))) /
              (Max (set (column data j)) - Min (set (column data j)) + eps)"
    by blast
  have "0 \<le> rows exact ! i ! j \<and> rows exact ! i ! j < 1 \<and>
        0 < Max (set (column data j)) - Min (set (column data j)) + eps \<and>
        (Max (set (column data j)) = Min (set (column data j)) \<longrightarrow> rows exact ! i ! j = 0) \<and>
        (Max (set (column data j)) - Min (set (column data j)) < 2 ^ 1024 - 2 ^ 970 \<longrightarrow>
           (\<exists>q d. rows norm ! i ! j = Finite q \<and> 0 \<le> q \<and> q \<le> 1 \<and>
              f64_add (f64_sub (Finite (Max (set (column data j)))) (Finite (Min (set (column data j)))))
                (f64_of_real eps) = Finite d \<and> 0 < d \<and>
              (Max (set (column data j)) = Min (set (column data j)) \<longrightarrow> q = 0))) \<and>
        (2 ^ 1024 - 2 ^ 970 \<le> Max (set (column data j)) - Min (set (column data j)) \<longrightarrow>
           f64_add (f64_sub (Finite (Max (set (column data j)))) (Finite (Min (set (column data j)))))
             (f64_of_real eps) = PosInf \<and>
           rows norm ! i ! j =
             (if 2 ^ 1024 - 2 ^ 970 \<le> rows data ! i ! j - Min (set (column data j))
              then NaN else Finite 0))"
    if i: "i < length (rows data)" and j: "j < ncols data" for i j
  proof -
    let ?x = "rows data ! i ! j" and ?mn = "Min (set (column data j))" and ?mx = "Max (set (column data j))"
    note b = column_entry_bounds[OF i, of j]
    have e: "(0::real) < eps" by (simp add: eps_def)
    with b have d: "0 < ?mx - ?mn + eps" by simp
    from b e have "?x - ?mn < ?mx - ?mn + eps" by simp
    with d have lt: "(?x - ?mn) / (?mx - ?mn + eps) < 1" by simp
    from b d have ge: "0 \<le> (?x - ?mn) / (?mx - ?mn + eps)" by simp
    have z: "(?x - ?mn) / (?mx - ?mn + eps) = 0" if "?mx = ?mn"
      using that b by simp
    have f: "\<exists>q d. rows norm ! i ! j = Finite q \<and> 0 \<le> q \<and> q \<le> 1 \<and>
              f64_add (f64_sub (Finite ?mx) (Finite ?mn)) (f64_of_real eps) = Finite d \<and> 0 < d \<and>
              (?mx = ?mn \<longrightarrow> q = 0)"
      if "?mx - ?mn < 2 ^ 1024 - 2 ^ 970"
      using f64_quotient_range[OF b that] unfolding ne[OF i j] by blast
    have o: "f64_add (f64_sub (Finite ?mx) (Finite ?mn)) (f64_of_real eps) = PosInf \<and>
           rows norm ! i ! j = (if 2 ^ 1024 - 2 ^ 970 \<le> ?x - ?mn then NaN else Finite 0)"
      if "2 ^ 1024 - 2 ^ 970 \<le> ?mx - ?mn"
      using f64_quotient_overflow[OF b that] unfolding ne[OF i j] by blast
    show ?thesis
      unfolding xe[OF i j] using d lt ge z f o by blast
  qed
  with n x show ?thesis by blast
qed

text \<open>
  The operations of \<^verbatim>\<open>normalize_error\<close> on the columns \<open>[0, 1]\<close>, \<open>[1, 3]\<close> and \<open>[0, 1e12]\<close>:
  the sums \<open>1 + 1e-5\<close> and \<open>2 + 1e-5\<close> and the quotients \<open>1 / (1 + 1e-5)\<close> and
  \<open>2 / (2 + 1e-5)\<close> as \<^verbatim>\<open>float64\<close> computes them, and the sum \<open>1e12 + 1e-5\<close>, which rounds to
  \<open>1e12\<close>, the spacing of the doubles near \<open>10^12\<close> being \<open>2^-13\<close>.
\<close>

lemma f64_div_zero: "y \<noteq> 0 \<Longrightarrow> f64_div (Finite 0) (Finite y) = Finite 0"
  by (simp add: f64_of_real_0)

lemma f64_add_0_eps:
  "f64_add (Finite 0) (Finite (5902958103587057 / 590295810358705651712)) =
   Finite (5902958103587057 / 590295810358705651712)"
proof -
  have "round_f64 (5902958103587057 / 590295810358705651712) = 5902958103587057 / 590295810358705651712"
    using round_f64_idem[of "1 / 100000"] by (simp add: round_f64_eps)
  then have "f64_of_real (5902958103587057 / 590295810358705651712) =
      Finite (5902958103587057 / 590295810358705651712)"
    by (rule f64_of_real_eqI) simp
  then show ?thesis by simp
qed

lemma f64_add_1_eps:
  "f64_add (Finite 1) (Finite (5902958103587057 / 590295810358705651712)) =
   Finite (2251822331683385 / 2251799813685248)"
proof -
  have "round_f64 (1 + 5902958103587057 / 590295810358705651712) =
        2 powr (of_int 0 - 52) * of_int 4503644663366770"
    by (rule round_f64_nearest) (simp_all add: powr_minus)
  also have "\<dots> = 2251822331683385 / 2251799813685248"
    by (simp add: powr_minus)
  finally have "f64_of_real (1 + 5902958103587057 / 590295810358705651712) =
      Finite (2251822331683385 / 2251799813685248)"
    by (rule f64_of_real_eqI) simp
  then show ?thesis by (simp only: f64_add.simps)
qed

lemma f64_div_1:
  "f64_div (Finite 1) (Finite (2251822331683385 / 2251799813685248)) =
   Finite (9007109183649155 / 9007199254740992)"
proof -
  have "round_f64 (1 / (2251822331683385 / 2251799813685248)) =
        2 powr (of_int (- 1) - 52) * of_int 9007109183649155"
    by (rule round_f64_nearest) (simp_all add: powr_minus)
  also have "\<dots> = 9007109183649155 / 9007199254740992"
    by (simp add: powr_minus)
  finally have "f64_of_real (1 / (2251822331683385 / 2251799813685248)) =
      Finite (9007109183649155 / 9007199254740992)"
    by (rule f64_of_real_eqI) simp
  then show ?thesis by (simp only: f64_div.simps) simp
qed

lemma f64_add_2_eps:
  "f64_add (Finite 2) (Finite (5902958103587057 / 590295810358705651712)) =
   Finite (4503622145368633 / 2251799813685248)"
proof -
  have "round_f64 (2 + 5902958103587057 / 590295810358705651712) =
        2 powr (of_int 1 - 52) * of_int 4503622145368633"
    by (rule round_f64_nearest) (simp_all add: powr_minus)
  also have "\<dots> = 4503622145368633 / 2251799813685248"
    by (simp add: powr_minus)
  finally have "f64_of_real (2 + 5902958103587057 / 590295810358705651712) =
      Finite (4503622145368633 / 2251799813685248)"
    by (rule f64_of_real_eqI) simp
  then show ?thesis by (simp only: f64_add.simps)
qed

lemma f64_div_2:
  "f64_div (Finite 2) (Finite (4503622145368633 / 2251799813685248)) =
   Finite (9007154218969897 / 9007199254740992)"
proof -
  have "round_f64 (2 / (4503622145368633 / 2251799813685248)) =
        2 powr (of_int (- 1) - 52) * of_int 9007154218969897"
    by (rule round_f64_nearest) (simp_all add: powr_minus)
  also have "\<dots> = 9007154218969897 / 9007199254740992"
    by (simp add: powr_minus)
  finally have "f64_of_real (2 / (4503622145368633 / 2251799813685248)) =
      Finite (9007154218969897 / 9007199254740992)"
    by (rule f64_of_real_eqI) simp
  then show ?thesis by (simp only: f64_div.simps) simp
qed

lemma f64_of_real_2: "f64_of_real 2 = Finite 2"
  using f64_of_real_nat[of 2] by simp

lemma f64_of_real_1e12: "f64_of_real 1000000000000 = Finite 1000000000000"
  by (rule f64_of_real_eqI) (simp_all add: round_f64_1e12)

lemma f64_div_1e12: "f64_div (Finite 1000000000000) (Finite 1000000000000) = Finite 1"
  by (simp add: f64_of_real_1)

lemma f64_add_1e12_eps:
  "f64_add (Finite 1000000000000) (Finite (5902958103587057 / 590295810358705651712)) =
   Finite 1000000000000"
proof -
  have "f64_of_real (1000000000000 + 5902958103587057 / 590295810358705651712) = Finite 1000000000000"
    by (rule f64_of_real_eqI) (simp_all only: round_f64_absorbs_eps, simp)
  then show ?thesis by (simp only: f64_add.simps)
qed

text \<open>The result on a matrix of one column and two rows.\<close>

lemma normalize_error_column:
  "normalize_error (Matrix 1 [[a], [b]]) =
   Inr (Matrix 1
     [[f64_div (f64_sub (Finite a) (Finite (min b a)))
         (f64_add (f64_sub (Finite (max b a)) (Finite (min b a))) (f64_of_real eps))],
      [f64_div (f64_sub (Finite b) (Finite (min b a)))
         (f64_add (f64_sub (Finite (max b a)) (Finite (min b a))) (f64_of_real eps))]])"
  by (simp add: normalize_error_def amax0_def amin0_def column_def broadcast_rows_def)

lemma normalize_error_example:
  "normalize_error (Matrix 1 [[0], [1]]) =
   Inr (Matrix 1 [[Finite 0], [Finite (9007109183649155 / 9007199254740992)]])"
  unfolding normalize_error_column
  by (simp add: f64_sub_Finite f64_of_real_0 f64_of_real_1 f64_of_real_eps f64_add_1_eps f64_div_1
      f64_div_zero del: f64_add.simps f64_div.simps)

lemma normalize_error_example2:
  "normalize_error (absolute (Matrix 1 [[- 1], [3]])) =
   Inr (Matrix 1 [[Finite 0], [Finite (9007154218969897 / 9007199254740992)]])"
proof -
  have a: "absolute (Matrix 1 [[- 1], [3]]) = Matrix 1 [[1], [3]]"
    by (simp add: absolute_def)
  show ?thesis
    unfolding a normalize_error_column
    by (simp add: f64_sub_Finite f64_of_real_0 f64_of_real_2 f64_of_real_eps f64_add_2_eps f64_div_2
        f64_div_zero del: f64_add.simps f64_div.simps)
qed

text \<open>
  Claim C3 as stated fails in two ways. For the column \<open>[0, 1e12]\<close>, whose maximum exceeds
  its minimum, the sum \<open>1e12 + 1e-5\<close> rounds to \<open>1e12\<close> and the second entry of the result
  is \<open>1\<close>, not below \<open>1\<close>. For the column \<open>[-2^1023, 2^1023]\<close>, whose maximum exceeds its
  minimum, the subtraction \<open>max - min\<close> overflows to \<^verbatim>\<open>inf\<close> and the second entry of the
  result is \<^verbatim>\<open>inf / inf\<close>, which is \<^verbatim>\<open>nan\<close>.
\<close>

theorem normalize_error_rounds_to_one_counterexample:
  "normalize_error (Matrix 1 [[0], [1000000000000]]) = Inr (Matrix 1 [[Finite 0], [Finite 1]]) \<and>
   Min (set (column (Matrix 1 [[0], [1000000000000]]) 0)) = (0::real) \<and>
   Max (set (column (Matrix 1 [[0], [1000000000000]]) 0)) = (1000000000000::real) \<and>
   normalize_error (Matrix 1 [[- (2 ^ 1023)], [2 ^ 1023]]) = Inr (Matrix 1 [[Finite 0], [NaN]]) \<and>
   Min (set (column (Matrix 1 [[- (2 ^ 1023)], [2 ^ 1023]]) 0)) = (- (2 ^ 1023) :: real) \<and>
   Max (set (column (Matrix 1 [[- (2 ^ 1023)], [2 ^ 1023]]) 0)) = (2 ^ 1023 :: real)"
proof -
  have 1: "normalize_error (Matrix 1 [[0], [1000000000000]]) = Inr (Matrix 1 [[Finite 0], [Finite 1]])"
    unfolding normalize_error_column
    by (simp add: f64_sub_Finite f64_of_real_0 f64_of_real_1e12 f64_of_real_eps
        f64_add_1e12_eps f64_div_zero f64_div_1e12 del: f64_add.simps f64_div.simps)
  have o: "f64_of_real (2 * 2 ^ 1023) = PosInf"
    by (rule f64_of_real_overflow) simp
  have 2: "normalize_error (Matrix 1 [[- (2 ^ 1023)], [2 ^ 1023]]) = Inr (Matrix 1 [[Finite 0], [NaN]])"
    unfolding normalize_error_column
    by (simp add: f64_sub_Finite f64_of_real_0 f64_of_real_eps o del: power_numeral)
  from 1 2 show ?thesis by (simp add: column_def)
qed

text \<open>
  A matrix with the column \<open>[0, 1]\<close> and the constant column \<open>[5, 5]\<close>: neither difference
  \<open>max - min\<close> overflows, the entries of the first column are \<open>0\<close> and the double of
  \<open>1 / (1 + 1e-5)\<close>, which lie in \<open>[0, 1]\<close>, and the entries of the second are \<open>0\<close>.
\<close>

theorem normalize_error_range_witness:
  "wf_matrix (Matrix 2 [[0, 5], [1, 5]] :: matrix) \<and> rows (Matrix 2 [[0, 5], [1, 5]] :: matrix) \<noteq> [] \<and>
   Max (set (column (Matrix 2 [[0, 5], [1, 5]]) 0)) - Min (set (column (Matrix 2 [[0, 5], [1, 5]]) 0)) = (1::real) \<and>
   Max (set (column (Matrix 2 [[0, 5], [1, 5]]) 1)) = (Min (set (column (Matrix 2 [[0, 5], [1, 5]]) 1)) :: real) \<and>
   (\<exists>norm q. normalize_error (Matrix 2 [[0, 5], [1, 5]]) = Inr norm \<and>
      rows norm ! 1 ! 0 = Finite q \<and> 0 \<le> q \<and> q \<le> 1 \<and> rows norm ! 0 ! 1 = Finite 0) \<and>
   normalize_error (Matrix 2 [[0, 5], [1, 5]]) =
     Inr (Matrix 2 [[Finite 0, Finite 0], [Finite (9007109183649155 / 9007199254740992), Finite 0]]) \<and>
   normalize_error_exact (Matrix 2 [[0, 5], [1, 5]]) = Inr (Matrix 2 [[0, 0], [100000 / 100001, 0]])"
proof -
  let ?m = "Matrix 2 [[0, 5], [1, 5]] :: matrix"
  have w: "wf_matrix ?m" "rows ?m \<noteq> []"
    by (simp_all add: wf_matrix_def)
  have c: "Max (set (column ?m 1)) = Min (set (column ?m 1))"
    "Max (set (column ?m 0)) - Min (set (column ?m 0)) = 1"
    by (simp_all add: column_def)
  have x: "normalize_error_exact ?m = Inr (Matrix 2 [[0, 0], [100000 / 100001, 0]])"
    by (simp add: normalize_error_exact_def amax0_def amin0_def column_def
        broadcast_rows_def eps_def numeral_2_eq_2)
  have "normalize_error ?m =
     Inr (Matrix 2
       [[f64_div (f64_sub (Finite 0) (Finite 0)) (f64_add (f64_sub (Finite 1) (Finite 0)) (f64_of_real eps)),
         f64_div (f64_sub (Finite 5) (Finite 5)) (f64_add (f64_sub (Finite 5) (Finite 5)) (f64_of_real eps))],
        [f64_div (f64_sub (Finite 1) (Finite 0)) (f64_add (f64_sub (Finite 1) (Finite 0)) (f64_of_real eps)),
         f64_div (f64_sub (Finite 5) (Finite 5)) (f64_add (f64_sub (Finite 5) (Finite 5)) (f64_of_real eps))]])"
    by (simp add: normalize_error_def amax0_def amin0_def column_def broadcast_rows_def numeral_2_eq_2)
  then have v: "normalize_error ?m =
     Inr (Matrix 2 [[Finite 0, Finite 0], [Finite (9007109183649155 / 9007199254740992), Finite 0]])"
    by (simp add: f64_sub_Finite f64_of_real_0 f64_of_real_1 f64_of_real_eps f64_add_1_eps f64_div_1
        f64_add_0_eps f64_div_zero del: f64_add.simps f64_div.simps)
  from normalize_error_range [OF w] obtain norm where
    n: "normalize_error ?m = Inr norm" and
    r: "\<forall>i<length (rows ?m). \<forall>j<ncols ?m.
        (Max (set (column ?m j)) - Min (set (column ?m j)) < 2 ^ 1024 - 2 ^ 970 \<longrightarrow>
           (\<exists>q d. rows norm ! i ! j = Finite q \<and> 0 \<le> q \<and> q \<le> 1 \<and>
              f64_add (f64_sub (Finite (Max (set (column ?m j)))) (Finite (Min (set (column ?m j)))))
                (f64_of_real eps) = Finite d \<and> 0 < d \<and>
              (Max (set (column ?m j)) = Min (set (column ?m j)) \<longrightarrow> q = 0)))"
    by blast
  have i: "(1::nat) < length (rows ?m)" "(0::nat) < length (rows ?m)"
    "(0::nat) < ncols ?m" "(1::nat) < ncols ?m"
    by simp_all
  have b: "Max (set (column ?m 0)) - Min (set (column ?m 0)) < 2 ^ 1024 - 2 ^ 970"
    "Max (set (column ?m 1)) - Min (set (column ?m 1)) < 2 ^ 1024 - 2 ^ 970"
    unfolding c by simp_all
  from r i(1,3) b(1) have 1: "\<exists>q. rows norm ! 1 ! 0 = Finite q \<and> 0 \<le> q \<and> q \<le> 1"
    by blast
  from r i(2,4) b(2) c(1) have 2: "rows norm ! 0 ! 1 = Finite 0"
    by blast
  from n 1 2 have "\<exists>norm q. normalize_error ?m = Inr norm \<and>
      rows norm ! 1 ! 0 = Finite q \<and> 0 \<le> q \<and> q \<le> 1 \<and> rows norm ! 0 ! 1 = Finite 0"
    by blast
  with w c x v show ?thesis by simp
qed

section \<open>Properties of \<^verbatim>\<open>AnomalyParameters\<close>\<close>

text \<open>
  Claim C10. Whatever value is passed as \<^verbatim>\<open>peaks_width\<close> to the constructor, the attribute
  \<^verbatim>\<open>peak_width\<close> of the constructed object is \<open>10\<close>; two constructor calls that differ in
  that argument only build the same object, so the argument has no effect on any later
  call; and the \<^verbatim>\<open>peaks\<close> branch of \<^verbatim>\<open>compute_anomalies\<close> on a constructed object (with its
  labels assigned) calls \<^verbatim>\<open>anomaly_dates_peaks\<close> with \<^verbatim>\<open>peak_width = 10\<close>.
\<close>

theorem peaks_width_ignored:
  "peak_width (AnomalyParameters_init m sf t n v ig) = 10 \<and>
   AnomalyParameters_init m sf t n v ig = AnomalyParameters_init m sf t n v' ig \<and>
   compute_anomalies ano ((AnomalyParameters_init ''peaks'' sf t n v ig)\<lparr>labels := ls\<rparr>) error display =
     and_then (conv_kernel sf) (\<lambda>conv.
     and_then (select_columns ls ig ls) (\<lambda>col_ids.
     and_then (take_columns error col_ids) (\<lambda>e.
     and_then (normalize_error (absolute e)) (\<lambda>error_norm.
       anomaly_dates_peaks ano error_norm n conv 10))))"
  by (simp add: AnomalyParameters_init_def compute_anomalies_def col_ids_of_def)

text \<open>The text of \<^verbatim>\<open>str(AnomalyParameters.available_methods())\<close>.\<close>

lemma py_str_list_available_methods:
  "py_str_list available_methods = ''['threshold_norm', 'threshold', 'peaks', 'votes', 'gaussian']''"
  by (simp add: py_str_list_def available_methods_def)

lemma unknown_method_dispatch:
  assumes "method self \<notin> set available_methods"
  shows "compute_anomalies ano self error display =
     and_then (conv_kernel (smooth_factor self)) (\<lambda>conv.
     and_then (col_ids_of self) (\<lambda>col_ids.
     and_then (take_columns error col_ids) (\<lambda>e.
     and_then (normalize_error (absolute e)) (\<lambda>error_norm.
       Inl (ValueError (''Unknown anomaly method: '' @ method self @
                ''. Available methods are '' @ py_str_list available_methods))))))"
  using assms unfolding compute_anomalies_def by (simp add: available_methods_def)

text \<open>
  Claim C8, as amended. For every method value outside the five supported ones,
  \<^verbatim>\<open>compute_anomalies\<close> never returns a result and its outcome does not depend on the
  module \<^verbatim>\<open>anomalies\<close>, none of whose functions is called. The method is tested last,
  after the kernel, the column selection and the normalization: once these have gone
  through, the call raises \<^verbatim>\<open>ValueError\<close> with a message that names the method value and
  lists the supported methods; when one of them raises, that error is the outcome.
\<close>

theorem unknown_method_error:
  assumes "method self \<notin> set available_methods"
  shows "(\<exists>e. compute_anomalies ano self error display = Inl e) \<and>
     compute_anomalies ano self error display = compute_anomalies ano' self error display \<and>
     (conv_kernel (smooth_factor self) = Inr conv \<and> col_ids_of self = Inr col_ids \<and>
      take_columns error col_ids = Inr e \<and> normalize_error (absolute e) = Inr error_norm \<longrightarrow>
      compute_anomalies ano self error display =
        Inl (ValueError (''Unknown anomaly method: '' @ method self @
          ''. Available methods are ['threshold_norm', 'threshold', 'peaks', 'votes', 'gaussian']'')))"
proof -
  note d = unknown_method_dispatch[OF assms]
  have "\<exists>e. compute_anomalies ano self error display = Inl e"
    unfolding d by (auto simp: and_then_def split: sum.splits)
  moreover have "compute_anomalies ano self error display = compute_anomalies ano' self error display"
    by (simp only: d)
  moreover have "compute_anomalies ano self error display =
        Inl (ValueError (''Unknown anomaly method: '' @ method self @
          ''. Available methods are ['threshold_norm', 'threshold', 'peaks', 'votes', 'gaussian']''))"
    if "conv_kernel (smooth_factor self) = Inr conv" "col_ids_of self = Inr col_ids"
      "take_columns error col_ids = Inr e" "normalize_error (absolute e) = Inr error_norm"
    using that by (simp add: d py_str_list_available_methods)
  ultimately show ?thesis by blast
qed


text \<open>A run on one label, no smoothing and a matrix of one column and two rows.\<close>

lemma conv_kernel_0: "conv_kernel 0 = Inr [1]"
  by (simp add: conv_kernel_def round_f64_1)

lemma col_ids_single:
  "col_ids_of ((AnomalyParameters_init m 0 t n v [])\<lparr>labels := [''a'']\<rparr>) = Inr [0]"
  by (simp add: col_ids_of_def AnomalyParameters_init_def get_col_def)

lemma take_columns_single: "take_columns (Matrix 1 [[x], [y]]) [0] = Inr (Matrix 1 [[x], [y]])"
  by (simp add: take_columns_def)

text \<open>The method \<^verbatim>\<open>median\<close> is not supported, and the call raises the configuration error.\<close>

theorem unknown_method_error_witness:
  "''median'' \<notin> set available_methods \<and>
   compute_anomalies recording_anomalies
     ((AnomalyParameters_init ''median'' 0 3 40 () [])\<lparr>labels := [''a'']\<rparr>)
     (Matrix 1 [[0], [1]]) False =
   Inl (ValueError ''Unknown anomaly method: median. Available methods are ['threshold_norm', 'threshold', 'peaks', 'votes', 'gaussian']'')"
proof -
  let ?p = "(AnomalyParameters_init ''median'' 0 3 40 () [])\<lparr>labels := [''a'']\<rparr>
              :: (matrix \<times> real list \<times> bool option) AnomalyParameters"
  have m: "method ?p \<notin> set available_methods"
    by (simp add: AnomalyParameters_init_def available_methods_def)
  have c: "conv_kernel (smooth_factor ?p) = Inr [1]"
    by (simp add: conv_kernel_def AnomalyParameters_init_def round_f64_1)
  have i: "col_ids_of ?p = Inr [0]"
    by (rule col_ids_single)
  have t: "take_columns (Matrix 1 [[0], [1]]) [0] = Inr (Matrix 1 [[0], [1]])"
    by (rule take_columns_single)
  have n: "normalize_error (absolute (Matrix 1 [[0], [1]])) =
      Inr (Matrix 1 [[Finite 0], [Finite (9007109183649155 / 9007199254740992)]])"
    using normalize_error_example by (simp add: absolute_def)
  from unknown_method_error [OF m, of recording_anomalies "Matrix 1 [[0], [1]]" False recording_anomalies
      "[1]" "[0]" "Matrix 1 [[0], [1]]"
      "Matrix 1 [[Finite 0], [Finite (9007109183649155 / 9007199254740992)]]"] c i t n
  show ?thesis
    by (simp add: AnomalyParameters_init_def available_methods_def)
qed

text \<open>
  Claim C8 as stated fails when a step before the dispatch raises: with the unsupported
  method \<^verbatim>\<open>median\<close>, an error matrix without rows ends in the \<^verbatim>\<open>ValueError\<close> of
  \<^verbatim>\<open>np.amax\<close>, and \<^verbatim>\<open>smooth_factor = -1\<close> ends in \<^verbatim>\<open>ZeroDivisionError\<close>; neither message
  names the method.
\<close>

theorem unknown_method_other_error_counterexample:
  "compute_anomalies recording_anomalies
     ((AnomalyParameters_init ''median'' 0 3 40 () [])\<lparr>labels := [''a'']\<rparr>)
     (Matrix 1 []) False =
   Inl (ValueError ''zero-size array to reduction operation maximum which has no identity'') \<and>
   compute_anomalies recording_anomalies
     ((AnomalyParameters_init ''median'' (- 1) 3 40 () [])\<lparr>labels := [''a'']\<rparr>)
     (Matrix 1 [[0], [1]]) False =
   Inl ZeroDivisionError"
  by (simp add: compute_anomalies_def AnomalyParameters_init_def conv_kernel_def col_ids_of_def
      get_col_def take_columns_def absolute_def normalize_error_def amax0_def round_f64_1)

text \<open>Raising the threshold can only remove indices from \<^verbatim>\<open>np.where(signal > t)[0]\<close>.\<close>

lemma np_gt_mono: "t1 \<le> t2 \<Longrightarrow> np_gt x t2 \<Longrightarrow> np_gt x t1"
  by (cases x) simp_all

lemma np_gt_case:
  "np_gt x t = (case x of Finite y \<Rightarrow> t < y | PosInf \<Rightarrow> True | NegInf \<Rightarrow> False | NaN \<Rightarrow> False)"
  by (cases x) simp_all

lemma length_filter_mono:
  "(\<And>x. x \<in> set xs \<Longrightarrow> P x \<Longrightarrow> Q x) \<Longrightarrow> length (filter P xs) \<le> length (filter Q xs)"
  by (induction xs) auto

lemma np_where_gt_mono:
  assumes "t1 \<le> t2"
  shows "set (np_where_gt s t2) \<subseteq> set (np_where_gt s t1)"
    and "length (np_where_gt s t2) \<le> length (np_where_gt s t1)"
  using np_gt_mono[OF assms]
  by (auto simp: np_where_gt_def intro!: length_filter_mono)

text \<open>
  The selected columns: \<^verbatim>\<open>get_col\<close> returns the position of the first occurrence of a
  label, so that \<^verbatim>\<open>col_ids\<close> holds, for every label that is not ignored and in the order of
  the labels, the position of its first occurrence among the labels.
\<close>

lemma get_col_from_index:
  "l \<in> set header \<Longrightarrow> get_col_from header l i = Inr (i + length (takeWhile (\<lambda>h. h \<noteq> l) header))"
  by (induction header arbitrary: i) auto

lemma select_columns_eq:
  "set ls \<subseteq> set header \<Longrightarrow>
   select_columns header ign ls =
     Inr (map (\<lambda>l. length (takeWhile (\<lambda>h. h \<noteq> l) header)) (filter (\<lambda>l. l \<notin> set ign) ls))"
  by (induction ls) (auto simp: get_col_def get_col_from_index)

lemma col_ids_of_eq:
  "col_ids_of self =
     Inr (map (\<lambda>l. length (takeWhile (\<lambda>h. h \<noteq> l) (labels self)))
            (filter (\<lambda>l. l \<notin> set (ignore self)) (labels self)))"
  unfolding col_ids_of_def by (rule select_columns_eq) simp

lemma take_columns_Inr:
  "take_columns m ids = Inr e \<longleftrightarrow>
     (\<forall>j\<in>set ids. j < ncols m) \<and>
     e = Matrix (length ids) (map (\<lambda>r. map (\<lambda>j. r ! j) ids) (rows m))"
  by (auto simp: take_columns_def list_all_iff)

lemma conv_kernel_Inr:
  "conv_kernel sf = Inr conv \<longleftrightarrow>
     sf + 1 \<noteq> 0 \<and> conv = replicate (nat (sf + 1)) (round_f64 (1 / real_of_int (sf + 1)))"
  by (auto simp: conv_kernel_def Let_def)

text \<open>
  The division of one entry of the trace by \<^verbatim>\<open>len(col_ids)\<close>: for a finite entry and at
  least one column the rounded quotient, which does not overflow; for no column \<^verbatim>\<open>inf\<close>,
  \<^verbatim>\<open>-inf\<close> or \<^verbatim>\<open>nan\<close>; an infinite entry and \<^verbatim>\<open>nan\<close> stay as they are.
\<close>

lemma f64_div_len:
  assumes "n \<le> 2 ^ 53"
  shows "0 < n \<Longrightarrow> \<bar>x\<bar> < 2 ^ 1024 - 2 ^ 970 \<Longrightarrow>
           f64_div (Finite x) (f64_of_real (real n)) = Finite (round_f64 (x / real n))"
    and "n = 0 \<Longrightarrow> f64_div (Finite x) (f64_of_real (real n)) =
           (if 0 < x then PosInf else if x < 0 then NegInf else NaN)"
    and "f64_div PosInf (f64_of_real (real n)) = PosInf"
    and "f64_div NegInf (f64_of_real (real n)) = NegInf"
    and "f64_div NaN (f64_of_real (real n)) = NaN"
proof -
  note n = f64_of_real_nat[OF assms]
  show "f64_div (Finite x) (f64_of_real (real n)) = Finite (round_f64 (x / real n))"
    if "0 < n" "\<bar>x\<bar> < 2 ^ 1024 - 2 ^ 970"
  proof -
    from that(1) have "1 \<le> real n" by simp
    then have "\<bar>x\<bar> / real n \<le> \<bar>x\<bar> / 1"
      by (intro divide_left_mono) simp_all
    with that(2) have "\<bar>x / real n\<bar> < 2 ^ 1024 - 2 ^ 970" by simp
    from f64_of_real_finite(1)[OF this] that(1) show ?thesis
      unfolding n by simp
  qed
  show "f64_div (Finite x) (f64_of_real (real n)) =
          (if 0 < x then PosInf else if x < 0 then NegInf else NaN)" if "n = 0"
    unfolding n using that by simp
  show "f64_div PosInf (f64_of_real (real n)) = PosInf"
    "f64_div NegInf (f64_of_real (real n)) = NegInf"
    "f64_div NaN (f64_of_real (real n)) = NaN"
    unfolding n by simp_all
qed

lemma threshold_dispatch:
  assumes "method self = ''threshold''"
  shows "compute_anomalies ano self error display =
     and_then (conv_kernel (smooth_factor self)) (\<lambda>conv.
     and_then (col_ids_of self) (\<lambda>col_ids.
     and_then (take_columns error col_ids) (\<lambda>e.
     and_then (normalize_error (absolute e)) (\<lambda>error_norm.
     and_then (sum_conv_error ano error_norm conv) (\<lambda>summed.
       Inr (np_where_gt (map (\<lambda>x. f64_div x (f64_of_real (real (length col_ids)))) summed) (threshold self),
            Some (map (\<lambda>x. f64_div x (f64_of_real (real (length col_ids)))) summed), None))))))"
  using assms unfolding compute_anomalies_def by (simp add: Let_def)

text \<open>
  Claim C4. For the method \<^verbatim>\<open>threshold\<close>, with the error matrix, the labels, the ignore
  list and the smoothing window fixed, and thresholds \<open>t1 \<le> t2\<close>: when
  \<^verbatim>\<open>compute_anomalies\<close> returns at \<open>t1\<close> it returns at \<open>t2\<close> with the same signal, and the
  anomaly indices at \<open>t2\<close> are among those at \<open>t1\<close> and are not more numerous. The selected
  columns are the positions of the labels that are not ignored; \<^verbatim>\<open>sum_conv_error\<close> is
  called on the normalized absolute values of these columns of the error matrix and on the
  window of \<open>smooth_factor + 1\<close> equal weights; the signal is the trace it returns,
  each entry divided in \<^verbatim>\<open>float64\<close> by the number of selected columns: a finite entry \<open>x\<close>
  becomes the double nearest to \<open>x / n\<close> for \<open>n > 0\<close> columns, and \<^verbatim>\<open>inf\<close>, \<^verbatim>\<open>-inf\<close> or \<^verbatim>\<open>nan\<close>
  for no column, and an infinite entry or \<^verbatim>\<open>nan\<close> stays as it is. The anomaly indices are
  exactly the positions where the signal is \<^verbatim>\<open>inf\<close> or a finite value strictly greater
  than the threshold, all of them and in ascending order; the result does not depend on
  \<^verbatim>\<open>n_anomalies\<close>: no cap is applied.
\<close>

theorem threshold_method_monotone:
  assumes "method self = ''threshold''" and "t1 \<le> t2"
    and "compute_anomalies ano (self\<lparr>threshold := t1\<rparr>) error display = Inr (a1, s1, p1)"
  shows "\<exists>a2 conv col_ids error_norm summed trace.
     compute_anomalies ano (self\<lparr>threshold := t2\<rparr>) error display = Inr (a2, s1, p1) \<and>
     smooth_factor self + 1 \<noteq> 0 \<and>
     conv = replicate (nat (smooth_factor self + 1))
              (round_f64 (1 / real_of_int (smooth_factor self + 1))) \<and>
     col_ids = map (\<lambda>l. length (takeWhile (\<lambda>h. h \<noteq> l) (labels self)))
                 (filter (\<lambda>l. l \<notin> set (ignore self)) (labels self)) \<and>
     (\<forall>j\<in>set col_ids. j < ncols error) \<and>
     normalize_error
       (Matrix (length col_ids) (map (\<lambda>r. map (\<lambda>j. \<bar>r ! j\<bar>) col_ids) (rows error))) =
       Inr error_norm \<and>
     sum_conv_error ano error_norm conv = Inr summed \<and>
     length trace = length summed \<and>
     (length col_ids \<le> 2 ^ 53 \<longrightarrow>
        (\<forall>i<length summed.
           (\<forall>x. summed ! i = Finite x \<longrightarrow>
              (0 < length col_ids \<and> \<bar>x\<bar> < 2 ^ 1024 - 2 ^ 970 \<longrightarrow>
                 trace ! i = Finite (round_f64 (x / real (length col_ids)))) \<and>
              (length col_ids = 0 \<longrightarrow>
                 trace ! i = (if 0 < x then PosInf else if x < 0 then NegInf else NaN))) \<and>
           (summed ! i = PosInf \<longrightarrow> trace ! i = PosInf) \<and>
           (summed ! i = NegInf \<longrightarrow> trace ! i = NegInf) \<and>
           (summed ! i = NaN \<longrightarrow> trace ! i = NaN))) \<and>
     s1 = Some trace \<and> p1 = None \<and>
     a1 = filter (\<lambda>i. case trace ! i of Finite x \<Rightarrow> t1 < x | PosInf \<Rightarrow> True
                       | NegInf \<Rightarrow> False | NaN \<Rightarrow> False) [0..<length trace] \<and>
     a2 = filter (\<lambda>i. case trace ! i of Finite x \<Rightarrow> t2 < x | PosInf \<Rightarrow> True
                       | NegInf \<Rightarrow> False | NaN \<Rightarrow> False) [0..<length trace] \<and>
     set a2 \<subseteq> set a1 \<and> length a2 \<le> length a1 \<and>
     compute_anomalies ano (self\<lparr>threshold := t1, n_anomalies := n\<rparr>) error display = Inr (a1, s1, p1)"
proof -
  let ?ids = "map (\<lambda>l. length (takeWhile (\<lambda>h. h \<noteq> l) (labels self)))
                 (filter (\<lambda>l. l \<notin> set (ignore self)) (labels self))"
  let ?conv = "replicate (nat (smooth_factor self + 1))
              (round_f64 (1 / real_of_int (smooth_factor self + 1)))"
  let ?abs = "Matrix (length ?ids) (map (\<lambda>r. map (\<lambda>j. \<bar>r ! j\<bar>) ?ids) (rows error))"
  have m: "method (self\<lparr>threshold := t\<rparr>) = ''threshold''"
       "method (self\<lparr>threshold := t, n_anomalies := n\<rparr>) = ''threshold''" for t
    using assms(1) by simp_all
  have ids: "col_ids_of (self\<lparr>threshold := t\<rparr>) = Inr ?ids"
    "col_ids_of (self\<lparr>threshold := t, n_anomalies := n\<rparr>) = Inr ?ids" for t
    by (simp_all add: col_ids_of_eq)
  from assms(3) obtain conv e error_norm summed where
    c: "conv_kernel (smooth_factor self) = Inr conv" and
    t: "take_columns error ?ids = Inr e" and
    n: "normalize_error (absolute e) = Inr error_norm" and
    s: "sum_conv_error ano error_norm conv = Inr summed" and
    r: "(a1, s1, p1) =
          (np_where_gt (map (\<lambda>x. f64_div x (f64_of_real (real (length ?ids)))) summed) t1,
            Some (map (\<lambda>x. f64_div x (f64_of_real (real (length ?ids)))) summed), None)"
    unfolding threshold_dispatch[OF m(1)] ids
    by (auto simp: and_then_eq_Inr)
  let ?trace = "map (\<lambda>x. f64_div x (f64_of_real (real (length ?ids)))) summed"
  from c have cv: "smooth_factor self + 1 \<noteq> 0" "conv = ?conv"
    by (simp_all add: conv_kernel_Inr)
  from t[unfolded take_columns_Inr] have b: "\<forall>j\<in>set ?ids. j < ncols error"
    and e: "e = Matrix (length ?ids) (map (\<lambda>r. map (\<lambda>j. r ! j) ?ids) (rows error))"
    by blast+
  have "absolute e = ?abs"
    unfolding e by (simp add: absolute_def comp_def)
  with n have n': "normalize_error ?abs = Inr error_norm" by simp
  have 2: "compute_anomalies ano (self\<lparr>threshold := t2\<rparr>) error display =
      Inr (np_where_gt ?trace t2, Some ?trace, None)"
    unfolding threshold_dispatch[OF m(1)] ids using c t n s by simp
  have 3: "compute_anomalies ano (self\<lparr>threshold := t1, n_anomalies := n\<rparr>) error display =
      Inr (np_where_gt ?trace t1, Some ?trace, None)"
    unfolding threshold_dispatch[OF m(2)] ids using c t n s by simp
  from r have a1: "a1 = np_where_gt ?trace t1" and s1: "s1 = Some ?trace" and p1: "p1 = None"
    by simp_all
  have w: "np_where_gt ?trace t =
      filter (\<lambda>i. case ?trace ! i of Finite x \<Rightarrow> t < x | PosInf \<Rightarrow> True
                       | NegInf \<Rightarrow> False | NaN \<Rightarrow> False) [0..<length ?trace]" for t
    unfolding np_where_gt_def np_gt_case ..
  have avg: "(\<forall>x. summed ! i = Finite x \<longrightarrow>
              (0 < length ?ids \<and> \<bar>x\<bar> < 2 ^ 1024 - 2 ^ 970 \<longrightarrow>
                 ?trace ! i = Finite (round_f64 (x / real (length ?ids)))) \<and>
              (length ?ids = 0 \<longrightarrow>
                 ?trace ! i = (if 0 < x then PosInf else if x < 0 then NegInf else NaN))) \<and>
           (summed ! i = PosInf \<longrightarrow> ?trace ! i = PosInf) \<and>
           (summed ! i = NegInf \<longrightarrow> ?trace ! i = NegInf) \<and>
           (summed ! i = NaN \<longrightarrow> ?trace ! i = NaN)"
    if l: "length ?ids \<le> 2 ^ 53" and i: "i < length summed" for i
  proof -
    have ti: "?trace ! i = f64_div (summed ! i) (f64_of_real (real (length ?ids)))"
      using i by simp
    show ?thesis
      unfolding ti using f64_div_len[OF l] by auto
  qed
  show ?thesis
  proof (intro exI conjI)
    show "compute_anomalies ano (self\<lparr>threshold := t2\<rparr>) error display =
        Inr (np_where_gt ?trace t2, s1, p1)"
      unfolding 2 s1 p1 ..
    show "smooth_factor self + 1 \<noteq> 0" by (rule cv(1))
    show "conv = ?conv" by (rule cv(2))
    show "?ids = ?ids" ..
    show "\<forall>j\<in>set ?ids. j < ncols error" by (rule b)
    show "normalize_error ?abs = Inr error_norm" by (rule n')
    show "sum_conv_error ano error_norm conv = Inr summed" by (rule s)
    show "length ?trace = length summed" by simp
    show "length ?ids \<le> 2 ^ 53 \<longrightarrow>
        (\<forall>i<length summed.
           (\<forall>x. summed ! i = Finite x \<longrightarrow>
              (0 < length ?ids \<and> \<bar>x\<bar> < 2 ^ 1024 - 2 ^ 970 \<longrightarrow>
                 ?trace ! i = Finite (round_f64 (x / real (length ?ids)))) \<and>
              (length ?ids = 0 \<longrightarrow>
                 ?trace ! i = (if 0 < x then PosInf else if x < 0 then NegInf else NaN))) \<and>
           (summed ! i = PosInf \<longrightarrow> ?trace ! i = PosInf) \<and>
           (summed ! i = NegInf \<longrightarrow> ?trace ! i = NegInf) \<and>
           (summed ! i = NaN \<longrightarrow> ?trace ! i = NaN))"
      using avg by blast
    show "s1 = Some ?trace" by (rule s1)
    show "p1 = None" by (rule p1)
    show "a1 = filter (\<lambda>i. case ?trace ! i of Finite x \<Rightarrow> t1 < x | PosInf \<Rightarrow> True
                       | NegInf \<Rightarrow> False | NaN \<Rightarrow> False) [0..<length ?trace]"
      unfolding a1 by (rule w)
    show "np_where_gt ?trace t2 =
        filter (\<lambda>i. case ?trace ! i of Finite x \<Rightarrow> t2 < x | PosInf \<Rightarrow> True
                       | NegInf \<Rightarrow> False | NaN \<Rightarrow> False) [0..<length ?trace]"
      by (rule w)
    show "set (np_where_gt ?trace t2) \<subseteq> set a1"
      unfolding a1 by (rule np_where_gt_mono(1)[OF assms(2)])
    show "length (np_where_gt ?trace t2) \<le> length a1"
      unfolding a1 by (rule np_where_gt_mono(2)[OF assms(2)])
    show "compute_anomalies ano (self\<lparr>threshold := t1, n_anomalies := n\<rparr>) error display =
        Inr (a1, s1, p1)"
      unfolding 3 a1 s1 p1 ..
  qed
qed

text \<open>
  A run on three labels of which the second is ignored, without smoothing, on a matrix of
  three rows: the selected columns are \<open>0\<close> and \<open>2\<close>, their absolute values are
  \<open>[1, 1, 0]\<close> and \<open>[1, 0, 0]\<close>, and with \<open>q\<close> the double of \<open>1 / (1 + 1e-5)\<close> the normalized
  columns are \<open>[q, q, 0]\<close> and \<open>[q, 0, 0]\<close>. The stand-in sums the rows to \<open>[2q, q, 0]\<close>, and
  the signal is \<open>[q, q/2, 0]\<close>.
\<close>

lemma f64_of_real_exact:
  assumes "- 1022 \<le> e" "e \<le> 1022" "0 \<le> k" "k \<le> 2 ^ 53"
    and "y = 2 powr (of_int e - 52) * of_int k"
  shows "f64_of_real y = Finite y"
proof (rule f64_of_real_eqI)
  show "round_f64 y = y"
    unfolding assms(5) using assms(1,3,4) by (rule round_f64_exact)
  from assms(4) have "(of_int k :: real) \<le> of_int (2 ^ 53)" by (simp only: of_int_le_iff)
  then have "(of_int k :: real) \<le> 2 ^ 53" by simp
  then have "2 powr (of_int e - 52) * of_int k \<le> 2 powr (of_int e - 52) * (2 ^ 53 :: real)"
    by (intro mult_left_mono) simp_all
  also have "\<dots> = 2 powr (of_int e + 1)" by (rule powr_unit_mult(2))
  also have "\<dots> \<le> 2 powr 1023" using assms(2) by (intro powr_mono) simp_all
  finally have "y \<le> 2 ^ 1023" unfolding assms(5) by simp
  moreover have "0 \<le> y" unfolding assms(5) using assms(3) by simp
  ultimately show "\<bar>y\<bar> < 2 ^ 1024" by simp
qed

lemma f64_of_real_q1:
  "f64_of_real (9007109183649155 / 9007199254740992) = Finite (9007109183649155 / 9007199254740992)"
  by (rule f64_of_real_exact[of "- 1" 9007109183649155]) (simp_all add: powr_minus)

lemma f64_of_real_2q1:
  "f64_of_real (9007109183649155 / 4503599627370496) = Finite (9007109183649155 / 4503599627370496)"
  by (rule f64_of_real_exact[of 0 9007109183649155]) (simp_all add: powr_minus)

lemma f64_of_real_half_q1:
  "f64_of_real (9007109183649155 / 18014398509481984) = Finite (9007109183649155 / 18014398509481984)"
  by (rule f64_of_real_exact[of "- 2" 9007109183649155]) (simp_all add: powr_minus)

lemma normalized_entries:
  "f64_div (f64_sub (Finite 1) (Finite 0)) (f64_add (f64_sub (Finite 1) (Finite 0)) (f64_of_real eps)) =
     Finite (9007109183649155 / 9007199254740992)"
  "f64_div (f64_sub (Finite 0) (Finite 0)) (f64_add (f64_sub (Finite 1) (Finite 0)) (f64_of_real eps)) =
     Finite 0"
  by (simp_all add: f64_sub_Finite f64_of_real_0 f64_of_real_1 f64_of_real_eps f64_add_1_eps f64_div_1
      f64_div_zero del: f64_add.simps f64_div.simps)

lemma threshold_example:
  "compute_anomalies recording_anomalies
     ((AnomalyParameters_init ''threshold'' 0 0 40 () [''b''])
        \<lparr>labels := [''a'', ''b'', ''c''], threshold := t\<rparr>)
     (Matrix 3 [[- 1, 7, 1], [1, 9, 0], [0, 8, 0]]) False =
   Inr (np_where_gt [Finite (9007109183649155 / 9007199254740992),
                     Finite (9007109183649155 / 18014398509481984), Finite 0] t,
        Some [Finite (9007109183649155 / 9007199254740992),
              Finite (9007109183649155 / 18014398509481984), Finite 0], None)"
proof -
  let ?p = "(AnomalyParameters_init ''threshold'' 0 0 40 () [''b''])
        \<lparr>labels := [''a'', ''b'', ''c''], threshold := t\<rparr>
              :: (matrix \<times> real list \<times> bool option) AnomalyParameters"
  let ?q = "9007109183649155 / 9007199254740992 :: real"
  have m: "method ?p = ''threshold''"
    by (simp add: AnomalyParameters_init_def)
  have c: "conv_kernel (smooth_factor ?p) = Inr [1]"
    by (simp add: conv_kernel_def AnomalyParameters_init_def round_f64_1)
  have i: "col_ids_of ?p = Inr [0, 2]"
    by (simp add: col_ids_of_def AnomalyParameters_init_def get_col_def)
  have k: "take_columns (Matrix 3 [[- 1, 7, 1], [1, 9, 0], [0, 8, 0]]) [0, 2] =
      Inr (Matrix 2 [[- 1, 1], [1, 0], [0, 0]])"
    by (simp add: take_columns_def)
  have n: "normalize_error (absolute (Matrix 2 [[- 1, 1], [1, 0], [0, 0]])) =
      Inr (Matrix 2 [[Finite ?q, Finite ?q], [Finite ?q, Finite 0], [Finite 0, Finite 0]])"
    by (simp add: absolute_def normalize_error_def amax0_def amin0_def column_def broadcast_rows_def
        numeral_2_eq_2 normalized_entries)
  have s: "sum_conv_error recording_anomalies
         (Matrix 2 [[Finite ?q, Finite ?q], [Finite ?q, Finite 0], [Finite 0, Finite 0]]) [1] =
       Inr [Finite (9007109183649155 / 4503599627370496), Finite ?q, Finite 0]"
    by (simp add: recording_anomalies_def f64_of_real_0 f64_of_real_q1 f64_of_real_2q1)
  have d: "f64_div (Finite (9007109183649155 / 4503599627370496)) (Finite 2) = Finite ?q"
    "f64_div (Finite ?q) (Finite 2) = Finite (9007109183649155 / 18014398509481984)"
    "f64_div (Finite 0) (Finite 2) = Finite 0"
    by (simp_all add: f64_of_real_0 f64_of_real_q1 f64_of_real_half_q1)
  show ?thesis
    unfolding threshold_dispatch[OF m] c i k n s and_then_Inr
    by (simp add: AnomalyParameters_init_def f64_of_real_2 d del: f64_div.simps)
qed

text \<open>
  The same on one label and the column \<open>[0, 1]\<close>: the signal is \<open>[0, q]\<close>.
\<close>

lemma threshold_example_single:
  "compute_anomalies recording_anomalies
     ((AnomalyParameters_init ''threshold'' 0 0 40 () [])\<lparr>labels := [''a''], threshold := t\<rparr>)
     (Matrix 1 [[0], [1]]) False =
   Inr (np_where_gt [Finite 0, Finite (9007109183649155 / 9007199254740992)] t,
        Some [Finite 0, Finite (9007109183649155 / 9007199254740992)], None)"
proof -
  let ?p = "(AnomalyParameters_init ''threshold'' 0 0 40 () [])\<lparr>labels := [''a''], threshold := t\<rparr>
              :: (matrix \<times> real list \<times> bool option) AnomalyParameters"
  let ?q = "9007109183649155 / 9007199254740992 :: real"
  have m: "method ?p = ''threshold''"
    by (simp add: AnomalyParameters_init_def)
  have c: "conv_kernel (smooth_factor ?p) = Inr [1]"
    by (simp add: conv_kernel_def AnomalyParameters_init_def round_f64_1)
  have i: "col_ids_of ?p = Inr [0]"
    by (simp add: col_ids_of_def AnomalyParameters_init_def get_col_def)
  have k: "take_columns (Matrix 1 [[0], [1]]) [0] = Inr (Matrix 1 [[0], [1]])"
    by (simp add: take_columns_def)
  have n: "normalize_error (absolute (Matrix 1 [[0], [1]])) = Inr (Matrix 1 [[Finite 0], [Finite ?q]])"
    using normalize_error_example by (simp add: absolute_def)
  have s: "sum_conv_error recording_anomalies (Matrix 1 [[Finite 0], [Finite ?q]]) [1] =
             Inr [Finite 0, Finite ?q]"
    by (simp add: recording_anomalies_def f64_of_real_0 f64_of_real_q1)
  have d: "f64_div (Finite 0) (Finite 1) = Finite 0" "f64_div (Finite ?q) (Finite 1) = Finite ?q"
    by (simp_all add: f64_of_real_0 f64_of_real_q1)
  show ?thesis
    unfolding threshold_dispatch[OF m] c i k n s and_then_Inr
    by (simp add: AnomalyParameters_init_def f64_of_real_1 d del: f64_div.simps)
qed

text \<open>
  With the signal \<open>[q, q/2, 0]\<close>, the threshold \<open>1/4\<close> flags the steps \<open>0\<close> and \<open>1\<close>, and the
  threshold \<open>q/2\<close> flags the step \<open>0\<close> only, the signal at step \<open>1\<close> being equal to the
  threshold and not greater. With the signal \<open>[0, q]\<close> of the column \<open>[0, 1]\<close>, the
  threshold \<open>q\<close> flags nothing.
\<close>

theorem threshold_method_monotone_witness:
  "method ((AnomalyParameters_init ''threshold'' 0 0 40 () [''b''])\<lparr>labels := [''a'', ''b'', ''c'']\<rparr>
      :: (matrix \<times> real list \<times> bool option) AnomalyParameters) = ''threshold'' \<and>
   (1 / 4 :: real) \<le> 9007109183649155 / 18014398509481984 \<and>
   compute_anomalies recording_anomalies
     ((AnomalyParameters_init ''threshold'' 0 0 40 () [''b''])
        \<lparr>labels := [''a'', ''b'', ''c''], threshold := 1 / 4\<rparr>)
     (Matrix 3 [[- 1, 7, 1], [1, 9, 0], [0, 8, 0]]) False =
   Inr ([0, 1], Some [Finite (9007109183649155 / 9007199254740992),
                      Finite (9007109183649155 / 18014398509481984), Finite 0], None) \<and>
   compute_anomalies recording_anomalies
     ((AnomalyParameters_init ''threshold'' 0 0 40 () [''b''])
        \<lparr>labels := [''a'', ''b'', ''c''], threshold := 9007109183649155 / 18014398509481984\<rparr>)
     (Matrix 3 [[- 1, 7, 1], [1, 9, 0], [0, 8, 0]]) False =
   Inr ([0], Some [Finite (9007109183649155 / 9007199254740992),
                   Finite (9007109183649155 / 18014398509481984), Finite 0], None) \<and>
   compute_anomalies recording_anomalies
     ((AnomalyParameters_init ''threshold'' 0 0 40 () [])
        \<lparr>labels := [''a''], threshold := 9007109183649155 / 9007199254740992\<rparr>)
     (Matrix 1 [[0], [1]]) False =
   Inr ([], Some [Finite 0, Finite (9007109183649155 / 9007199254740992)], None)"
proof -
  let ?p = "(AnomalyParameters_init ''threshold'' 0 0 40 () [''b''])\<lparr>labels := [''a'', ''b'', ''c'']\<rparr>
              :: (matrix \<times> real list \<times> bool option) AnomalyParameters"
  let ?M = "Matrix 3 [[- 1, 7, 1], [1, 9, 0], [0, 8, 0]] :: matrix"
  let ?s = "[Finite (9007109183649155 / 9007199254740992),
             Finite (9007109183649155 / 18014398509481984), Finite 0]"
  have m: "method ?p = ''threshold''"
    by (simp add: AnomalyParameters_init_def)
  have le: "(1 / 4 :: real) \<le> 9007109183649155 / 18014398509481984" by simp
  have 1: "compute_anomalies recording_anomalies (?p\<lparr>threshold := 1 / 4\<rparr>) ?M False =
     Inr ([0, 1], Some ?s, None)"
    using threshold_example[of "1 / 4"] by (simp add: np_where_gt_def upt_rec)
  from threshold_method_monotone [OF m le 1, of 40]
  obtain a2 trace where
    2: "compute_anomalies recording_anomalies
          (?p\<lparr>threshold := 9007109183649155 / 18014398509481984\<rparr>) ?M False =
        Inr (a2, Some ?s, None)" and
    t: "Some ?s = Some trace" and
    a: "a2 = filter (\<lambda>i. case trace ! i of Finite x \<Rightarrow> 9007109183649155 / 18014398509481984 < x
                       | PosInf \<Rightarrow> True | NegInf \<Rightarrow> False | NaN \<Rightarrow> False) [0..<length trace]"
    by blast
  from t have "trace = ?s" by simp
  with a have "a2 = [0]" by (simp add: upt_rec)
  with 2 have 3: "compute_anomalies recording_anomalies
          (?p\<lparr>threshold := 9007109183649155 / 18014398509481984\<rparr>) ?M False =
        Inr ([0], Some ?s, None)"
    by simp
  have 4: "compute_anomalies recording_anomalies
     ((AnomalyParameters_init ''threshold'' 0 0 40 () [])
        \<lparr>labels := [''a''], threshold := 9007109183649155 / 9007199254740992\<rparr>)
     (Matrix 1 [[0], [1]]) False =
   Inr ([], Some [Finite 0, Finite (9007109183649155 / 9007199254740992)], None)"
    using threshold_example_single[of "9007109183649155 / 9007199254740992"]
    by (simp add: np_where_gt_def upt_rec)
  from m le 1 3 4 show ?thesis by simp
qed

lemma threshold_norm_dispatch:
  assumes "method self = ''threshold_norm''"
  shows "compute_anomalies ano self error display =
     and_then (conv_kernel (smooth_factor self)) (\<lambda>conv.
     and_then (col_ids_of self) (\<lambda>col_ids.
     and_then (take_columns error col_ids) (\<lambda>e.
     and_then (normalize_error (absolute e)) (\<lambda>error_norm.
     and_then
       (case err_norm_model self of
          None \<Rightarrow> ErrorNormalizationModel_fit ano e conv None display
        | Some m \<Rightarrow> Inr m)
       (\<lambda>m. ErrorNormalizationModel_anomaly_dates ano m e (threshold self) conv display)))))"
  using assms unfolding compute_anomalies_def by simp

text \<open>
  Claim C6, as amended. When the method is \<^verbatim>\<open>threshold_norm\<close>, the matrix that
  \<^verbatim>\<open>compute_anomalies\<close> passes to the \<^verbatim>\<open>ErrorNormalizationModel\<close>, both to \<^verbatim>\<open>fit\<close> in the
  fit-on-query fallback and to \<^verbatim>\<open>anomaly_dates\<close>, is the ignore-filtered error matrix
  itself, signed and not normalized. The normalized absolute matrix is computed before the
  dispatch and is not passed to the model.
\<close>

theorem threshold_norm_passes_filtered_error:
  assumes "method self = ''threshold_norm''"
    and "conv_kernel (smooth_factor self) = Inr conv" and "col_ids_of self = Inr col_ids"
    and "take_columns error col_ids = Inr e" and "normalize_error (absolute e) = Inr error_norm"
  shows "compute_anomalies ano self error display =
     (case err_norm_model self of
        None \<Rightarrow>
          and_then (ErrorNormalizationModel_fit ano e conv None display) (\<lambda>m.
            ErrorNormalizationModel_anomaly_dates ano m e (threshold self) conv display)
      | Some m \<Rightarrow> ErrorNormalizationModel_anomaly_dates ano m e (threshold self) conv display)"
  unfolding threshold_norm_dispatch[OF assms(1)] using assms(2-5)
  by (simp split: option.splits)

lemma threshold_norm_example:
  "compute_anomalies recording_anomalies
     ((AnomalyParameters_init ''threshold_norm'' 0 3 40 () [])\<lparr>labels := [''a'']\<rparr>)
     (Matrix 1 [[- 1], [3]]) False =
   Inr ([0], Some [Finite (- 1), Finite 3, Finite (- 1), Finite 3], None)"
proof -
  let ?p = "(AnomalyParameters_init ''threshold_norm'' 0 3 40 () [])\<lparr>labels := [''a'']\<rparr>
              :: (matrix \<times> real list \<times> bool option) AnomalyParameters"
  have m: "method ?p = ''threshold_norm''"
    by (simp add: AnomalyParameters_init_def)
  have c: "conv_kernel (smooth_factor ?p) = Inr [1]"
    by (simp add: conv_kernel_def AnomalyParameters_init_def round_f64_1)
  have i: "col_ids_of ?p = Inr [0]"
    by (rule col_ids_single)
  have k: "take_columns (Matrix 1 [[- 1], [3]]) [0] = Inr (Matrix 1 [[- 1], [3]])"
    by (rule take_columns_single)
  have e: "err_norm_model ?p = None"
    by (simp add: AnomalyParameters_init_def)
  show ?thesis
    unfolding threshold_norm_dispatch[OF m] c i k normalize_error_example2 e and_then_Inr
    by (simp add: recording_anomalies_def fit_gauss_mode_def fit_gauss_default_def)
qed


text \<open>On the column \<open>[-1, 3]\<close> the model is fitted on, and queried with, that very column.\<close>

theorem threshold_norm_passes_filtered_error_witness:
  "method ((AnomalyParameters_init ''threshold_norm'' 0 3 40 () [])\<lparr>labels := [''a'']\<rparr>
      :: (matrix \<times> real list \<times> bool option) AnomalyParameters) = ''threshold_norm'' \<and>
   take_columns (Matrix 1 [[- 1], [3]]) [0] = Inr (Matrix 1 [[- 1], [3]]) \<and>
   normalize_error (absolute (Matrix 1 [[- 1], [3]])) =
     Inr (Matrix 1 [[Finite 0], [Finite (9007154218969897 / 9007199254740992)]]) \<and>
   compute_anomalies recording_anomalies
     ((AnomalyParameters_init ''threshold_norm'' 0 3 40 () [])\<lparr>labels := [''a'']\<rparr>)
     (Matrix 1 [[- 1], [3]]) False =
   ErrorNormalizationModel_anomaly_dates recording_anomalies (Matrix 1 [[- 1], [3]], [1], None)
     (Matrix 1 [[- 1], [3]]) 3 [1] False"
proof -
  let ?p = "(AnomalyParameters_init ''threshold_norm'' 0 3 40 () [])\<lparr>labels := [''a'']\<rparr>
              :: (matrix \<times> real list \<times> bool option) AnomalyParameters"
  have m: "method ?p = ''threshold_norm''"
    by (simp add: AnomalyParameters_init_def)
  have c: "conv_kernel (smooth_factor ?p) = Inr [1]"
    by (simp add: conv_kernel_def AnomalyParameters_init_def round_f64_1)
  have i: "col_ids_of ?p = Inr [0]"
    by (rule col_ids_single)
  have k: "take_columns (Matrix 1 [[- 1], [3]]) [0] = Inr (Matrix 1 [[- 1], [3]])"
    by (rule take_columns_single)
  have e: "err_norm_model ?p = None" "threshold ?p = 3"
    by (simp_all add: AnomalyParameters_init_def)
  from threshold_norm_passes_filtered_error [OF m c i k normalize_error_example2, of recording_anomalies False]
  have "compute_anomalies recording_anomalies ?p (Matrix 1 [[- 1], [3]]) False =
     ErrorNormalizationModel_anomaly_dates recording_anomalies (Matrix 1 [[- 1], [3]], [1], None)
       (Matrix 1 [[- 1], [3]]) 3 [1] False"
    unfolding e by (simp add: recording_anomalies_def)
  with m k normalize_error_example2 show ?thesis by simp
qed

text \<open>
  Claim C6 as stated fails: on the column \<open>[-1, 3]\<close> the model receives the entries
  \<open>-1\<close> and \<open>3\<close> at \<^verbatim>\<open>fit\<close> and at \<^verbatim>\<open>anomaly_dates\<close>, whereas the normalized absolute column is
  \<open>[0, q]\<close> with \<open>q\<close> the double of \<open>2 / (2 + 1e-5)\<close>, and a model given that column would
  have answered otherwise.
\<close>

theorem threshold_norm_normalized_counterexample:
  "compute_anomalies recording_anomalies
     ((AnomalyParameters_init ''threshold_norm'' 0 3 40 () [])\<lparr>labels := [''a'']\<rparr>)
     (Matrix 1 [[- 1], [3]]) False =
   Inr ([0], Some [Finite (- 1), Finite 3, Finite (- 1), Finite 3], None) \<and>
   normalize_error (absolute (Matrix 1 [[- 1], [3]])) =
     Inr (Matrix 1 [[Finite 0], [Finite (9007154218969897 / 9007199254740992)]]) \<and>
   and_then (ErrorNormalizationModel_fit recording_anomalies
       (Matrix 1 [[0], [9007154218969897 / 9007199254740992]]) [1] None False)
     (\<lambda>m. ErrorNormalizationModel_anomaly_dates recording_anomalies m
            (Matrix 1 [[0], [9007154218969897 / 9007199254740992]]) 3 [1] False) =
   Inr ([0], Some [Finite 0, Finite (9007154218969897 / 9007199254740992),
                   Finite 0, Finite (9007154218969897 / 9007199254740992)], None)"
  using threshold_norm_example normalize_error_example2
  by (simp add: recording_anomalies_def fit_gauss_mode_def fit_gauss_default_def)

text \<open>
  The method \<^verbatim>\<open>gaussian\<close>: a model stored by \<^verbatim>\<open>AnomalyParameters.fit\<close> was fitted by a call
  that does not pass \<^verbatim>\<open>fit_gauss\<close>, and \<^verbatim>\<open>compute_anomalies\<close> consults it as it is.
\<close>

lemma gaussian_dispatch:
  assumes "method self = ''gaussian''"
  shows "compute_anomalies ano self error display =
     and_then (conv_kernel (smooth_factor self)) (\<lambda>conv.
     and_then (col_ids_of self) (\<lambda>col_ids.
     and_then (take_columns error col_ids) (\<lambda>e.
     and_then (normalize_error (absolute e)) (\<lambda>error_norm.
     and_then
       (case err_norm_model self of
          None \<Rightarrow> ErrorNormalizationModel_fit ano e conv (Some True) display
        | Some m \<Rightarrow> Inr m)
       (\<lambda>m. ErrorNormalizationModel_anomaly_dates ano m e (threshold self) conv display)))))"
  using assms unfolding compute_anomalies_def by simp

lemma AnomalyParameters_fit_Inr:
  "AnomalyParameters_fit ano self train = Inr self' \<longleftrightarrow>
     (\<exists>conv col_ids e m. conv_kernel (smooth_factor self) = Inr conv \<and>
        col_ids_of self = Inr col_ids \<and> take_columns train col_ids = Inr e \<and>
        ErrorNormalizationModel_fit ano e conv None True = Inr m \<and>
        self' = self\<lparr>err_norm_model := Some m\<rparr>)"
  unfolding AnomalyParameters_fit_def by (auto simp: and_then_eq_Inr)

lemma gaussian_after_fit:
  assumes "method self = ''gaussian''" and "AnomalyParameters_fit ano self train = Inr self'"
    and "take_columns error col_ids = Inr e" and "col_ids_of self = Inr col_ids"
    and "normalize_error (absolute e) = Inr error_norm"
  shows "\<exists>conv te m. conv_kernel (smooth_factor self) = Inr conv \<and>
     take_columns train col_ids = Inr te \<and>
     ErrorNormalizationModel_fit ano te conv None True = Inr m \<and>
     compute_anomalies ano self' error display =
       ErrorNormalizationModel_anomaly_dates ano m e (threshold self) conv display"
proof -
  from assms(2,4) obtain conv te m where
    c: "conv_kernel (smooth_factor self) = Inr conv" and
    k: "take_columns train col_ids = Inr te" and
    f: "ErrorNormalizationModel_fit ano te conv None True = Inr m" and
    s: "self' = self\<lparr>err_norm_model := Some m\<rparr>"
    by (auto simp: AnomalyParameters_fit_Inr)
  have m: "method self' = ''gaussian''" using s assms(1) by simp
  have "compute_anomalies ano self' error display =
       ErrorNormalizationModel_anomaly_dates ano m e (threshold self) conv display"
    unfolding gaussian_dispatch[OF m] using c assms(3-5) s
    by (simp add: col_ids_of_def)
  with c k f show ?thesis by blast
qed

text \<open>
  Claim C5 at a failing input. With the method \<^verbatim>\<open>gaussian\<close>, \<^verbatim>\<open>AnomalyParameters.fit\<close> stores
  a model fitted without \<^verbatim>\<open>fit_gauss\<close>, that is in the default mode, which is not the
  Gaussian one; \<^verbatim>\<open>compute_anomalies\<close> then consults that model (the stand-in answers with
  index \<open>0\<close>), whereas without a stored model it fits one with \<^verbatim>\<open>fit_gauss = True\<close> (the
  stand-in answers with index \<open>1\<close>).
\<close>

theorem gaussian_prefit_default_mode:
  "AnomalyParameters_fit recording_anomalies
     ((AnomalyParameters_init ''gaussian'' 0 3 40 () [])\<lparr>labels := [''a'']\<rparr>) (Matrix 1 [[- 1], [3]]) =
   Inr ((AnomalyParameters_init ''gaussian'' 0 3 40 () [])
          \<lparr>labels := [''a''], err_norm_model := Some (Matrix 1 [[- 1], [3]], [1], None)\<rparr>) \<and>
   fit_gauss_mode None = False \<and>
   compute_anomalies recording_anomalies
     ((AnomalyParameters_init ''gaussian'' 0 3 40 () [])
          \<lparr>labels := [''a''], err_norm_model := Some (Matrix 1 [[- 1], [3]], [1], None)\<rparr>)
     (Matrix 1 [[- 1], [3]]) False =
   Inr ([0], Some [Finite (- 1), Finite 3, Finite (- 1), Finite 3], None) \<and>
   compute_anomalies recording_anomalies
     ((AnomalyParameters_init ''gaussian'' 0 3 40 () [])\<lparr>labels := [''a'']\<rparr>)
     (Matrix 1 [[- 1], [3]]) False =
   Inr ([1], Some [Finite (- 1), Finite 3, Finite (- 1), Finite 3], None)"
proof -
  let ?p = "(AnomalyParameters_init ''gaussian'' 0 3 40 () [])\<lparr>labels := [''a'']\<rparr>
              :: (matrix \<times> real list \<times> bool option) AnomalyParameters"
  let ?q = "?p\<lparr>err_norm_model := Some (Matrix 1 [[- 1], [3]], [1], None)\<rparr>"
  have m: "method ?p = ''gaussian''" "method ?q = ''gaussian''"
    by (simp_all add: AnomalyParameters_init_def)
  have c: "conv_kernel (smooth_factor ?p) = Inr [1]" "conv_kernel (smooth_factor ?q) = Inr [1]"
    by (simp_all add: conv_kernel_def AnomalyParameters_init_def round_f64_1)
  have i: "col_ids_of ?p = Inr [0]" "col_ids_of ?q = Inr [0]"
    by (simp_all add: col_ids_of_def AnomalyParameters_init_def get_col_def)
  have k: "take_columns (Matrix 1 [[- 1], [3]]) [0] = Inr (Matrix 1 [[- 1], [3]])"
    by (rule take_columns_single)
  have 1: "AnomalyParameters_fit recording_anomalies ?p (Matrix 1 [[- 1], [3]]) = Inr ?q"
    unfolding AnomalyParameters_fit_def c i k and_then_Inr
    by (simp add: recording_anomalies_def)
  have 2: "compute_anomalies recording_anomalies ?q (Matrix 1 [[- 1], [3]]) False =
     Inr ([0], Some [Finite (- 1), Finite 3, Finite (- 1), Finite 3], None)"
    unfolding gaussian_dispatch[OF m(2)] c i k normalize_error_example2 and_then_Inr
    by (simp add: recording_anomalies_def fit_gauss_mode_def fit_gauss_default_def)
  have 3: "compute_anomalies recording_anomalies ?p (Matrix 1 [[- 1], [3]]) False =
     Inr ([1], Some [Finite (- 1), Finite 3, Finite (- 1), Finite 3], None)"
    unfolding gaussian_dispatch[OF m(1)] c i k normalize_error_example2 and_then_Inr
    by (simp add: recording_anomalies_def fit_gauss_mode_def AnomalyParameters_init_def)
  show ?thesis using 1 2 3 by (simp add: fit_gauss_mode_def fit_gauss_default_def)
qed

end
